theory Spec2Isabelle
  imports Main "HOL-Library.Sublist"
begin

section \<open>Values and errors of the JavaScript runtime\<close>

text \<open>
  The two modules are TypeScript; types are erased at run time, and the history file is
  read through \<open>JSON.parse\<close> and used under an unchecked type annotation. The values that
  can reach the code are therefore modelled dynamically. Numbers are carried as integers
  (no operation of these modules computes with them); a \<open>Date\<close> is its time value in
  milliseconds.
\<close>

datatype jsval =
    Undefined
  | Null
  | Bool bool
  | Num int
  | Str string
  | DateV int
  | Arr "jsval list"
  | Obj "(string \<times> jsval) list"

text \<open>
  The exceptions that reach a caller: the two of the language that these modules can
  raise, and the rejection of a file-system call with its code.
\<close>

datatype errno = ENOENT | ENOTDIR | EEXIST | EISDIR | EACCES | EPERM | EROFS | ENOSPC

datatype error = SyntaxError | TypeError | SystemError errno

text \<open>
  \<open>s.replace(pat, rep)\<close> with a string pattern: only the first occurrence of \<open>pat\<close> is
  replaced (the replacement texts used here contain no \<open>$\<close> pattern).
\<close>

fun replace :: "string \<Rightarrow> string \<Rightarrow> string \<Rightarrow> string" where
  "replace pat rep [] = (if pat = [] then rep else [])"
| "replace pat rep (c # cs) =
     (if take (length pat) (c # cs) = pat then rep @ drop (length pat) (c # cs)
      else c # replace pat rep cs)"

section \<open>The status bar manager (q-status-bar-manager.ts)\<close>

text \<open>
  A \<open>StatusBarItem\<close> of the host: the properties this module sets, and whether the item
  is shown. \<open>window.createStatusBarItem\<close> yields a hidden item with empty text.
\<close>

record StatusBarItem =
  text_value :: string
  color :: "string option"
  tooltip_text :: "string option"
  visible :: bool

definition createStatusBarItem :: StatusBarItem where
  "createStatusBarItem = \<lparr>text_value = [], color = None, tooltip_text = None, visible = False\<rparr>"

definition show_item :: "StatusBarItem \<Rightarrow> StatusBarItem" where
  "show_item b = b\<lparr>visible := True\<rparr>"

definition hide_item :: "StatusBarItem \<Rightarrow> StatusBarItem" where
  "hide_item b = b\<lparr>visible := False\<rparr>"

record QStatusBarManager =
  connStatusBar :: StatusBarItem
  queryStatusBar :: StatusBarItem
  unlimitedQueryStatusBar :: StatusBarItem

text \<open>
  The static fields of \<open>QConnManager\<close> that this module reads (the class itself belongs to
  another module): they are taken as parameters.
\<close>

record QConnManager =
  queryMode :: string
  consoleMode :: bool

text \<open>
  The static \<open>QStatusBarManager.current\<close> is \<open>None\<close> until \<open>create\<close> has run. The items
  are also pushed to \<open>context.subscriptions\<close>, which only disposes of them at shutdown.
\<close>

definition new_QStatusBarManager :: QStatusBarManager where
  "new_QStatusBarManager =
     \<lparr>connStatusBar = show_item createStatusBarItem,
      queryStatusBar = createStatusBarItem
        \<lparr>text_value := ''$(loading)'', color := Some ''#F44336'', tooltip_text := Some ''Querying''\<rparr>,
      unlimitedQueryStatusBar = createStatusBarItem
        \<lparr>text_value := ''$(flame)'', color := Some ''#FFEE58'',
         tooltip_text := Some ''Unlimited Query''\<rparr>\<rparr>"

definition create :: "QStatusBarManager option \<Rightarrow> QStatusBarManager option" where
  "create current = (case current of None \<Rightarrow> Some new_QStatusBarManager | Some m \<Rightarrow> Some m)"

text \<open>\<open>queryMode[0]\<close> inside a string concatenation: the first character, or the text
  \<open>undefined\<close> when the string is empty.\<close>

definition first_char :: "string \<Rightarrow> string" where
  "first_char s = (case s of [] \<Rightarrow> ''undefined'' | c # _ \<Rightarrow> [c])"

definition conn_text :: "QConnManager \<Rightarrow> string option \<Rightarrow> string" where
  "conn_text Q label =
     first_char (queryMode Q) @ '':'' @
     replace '','' ''-'' (case label of None \<Rightarrow> ''No Connection'' | Some l \<Rightarrow> l)"

text \<open>The static methods dereference \<open>this.current!\<close>: a \<open>TypeError\<close> when it is unset.\<close>

definition updateConnStatus ::
  "QConnManager \<Rightarrow> string option \<Rightarrow> QStatusBarManager option \<Rightarrow> error + QStatusBarManager" where
  "updateConnStatus Q label current =
     (let t = conn_text Q label in
      case current of
        None \<Rightarrow> Inl TypeError
      | Some m \<Rightarrow>
          if consoleMode Q
          then Inr (m\<lparr>connStatusBar := connStatusBar m\<lparr>text_value := t, color := Some ''#FF79C6''\<rparr>\<rparr>)
          else Inr (m\<lparr>connStatusBar := connStatusBar m\<lparr>text_value := t, color := Some ''#8BE9FD''\<rparr>\<rparr>))"

definition updateConnStatusColor ::
  "QConnManager \<Rightarrow> QStatusBarManager option \<Rightarrow> error + QStatusBarManager" where
  "updateConnStatusColor Q current =
     (case current of
        None \<Rightarrow> Inl TypeError
      | Some m \<Rightarrow>
          if consoleMode Q
          then Inr (m\<lparr>connStatusBar := connStatusBar m\<lparr>color := Some ''#FF79C6''\<rparr>\<rparr>)
          else Inr (m\<lparr>connStatusBar := connStatusBar m\<lparr>color := Some ''#8BE9FD''\<rparr>\<rparr>))"

definition updateQueryStatus :: "bool \<Rightarrow> QStatusBarManager option \<Rightarrow> error + QStatusBarManager" where
  "updateQueryStatus shw current =
     (case current of
        None \<Rightarrow> Inl TypeError
      | Some m \<Rightarrow>
          if shw then Inr (m\<lparr>queryStatusBar := show_item (queryStatusBar m)\<rparr>)
          else Inr (m\<lparr>queryStatusBar := hide_item (queryStatusBar m)\<rparr>))"

definition updateUnlimitedQueryStatus ::
  "bool \<Rightarrow> QStatusBarManager option \<Rightarrow> error + QStatusBarManager" where
  "updateUnlimitedQueryStatus isLimited current =
     (case current of
        None \<Rightarrow> Inl TypeError
      | Some m \<Rightarrow>
          if isLimited then Inr (m\<lparr>unlimitedQueryStatusBar := hide_item (unlimitedQueryStatusBar m)\<rparr>)
          else Inr (m\<lparr>unlimitedQueryStatusBar := show_item (unlimitedQueryStatusBar m)\<rparr>))"

section \<open>The history tree (history.ts)\<close>

subsection \<open>The host\<close>

text \<open>
  What the module takes from its platform and libraries is a parameter of the model:
  \<^item> \<open>JSON_parse\<close> is \<open>JSON.parse\<close>; \<open>None\<close> stands for the \<open>SyntaxError\<close> it throws;
  \<^item> \<open>format v p\<close> is \<open>dayjs(v).format(p)\<close>, which depends on the clock and the time zone;
  \<^item> \<open>to_string\<close> is the conversion of a value inside a template literal;
  \<^item> \<open>homedir\<close> is the result of \<open>homedir()\<close> and \<open>cache\<close> is
    \<open>envpaths.default('vscode-q').cache\<close>, both read once when the module is loaded.

  A path is the list of its components below the root, so that \<open>path.join\<close> with
  plain names appends them and \<open>path.dirname\<close> removes the last one.
\<close>

type_synonym path = "string list"

record host =
  JSON_parse :: "string \<Rightarrow> jsval option"
  format :: "jsval \<Rightarrow> string \<Rightarrow> string"
  to_string :: "jsval \<Rightarrow> string"
  homedir :: path
  cache :: path

definition dirname :: "path \<Rightarrow> path" where
  "dirname p = butlast p"

text \<open>The two module constants (lines 16 and 17).\<close>

definition oldHistoryPath :: "host \<Rightarrow> path" where
  "oldHistoryPath H = homedir H @ [''.vscode'', ''q-query-history.json'']"

definition historyPath :: "host \<Rightarrow> path" where
  "historyPath H = cache H @ [''q-query-history.json'']"

subsection \<open>Objects\<close>

text \<open>
  A \<open>MarkdownString\<close> is kept as the sequence of the \<open>appendMarkdown\<close> and
  \<open>appendCodeblock\<close> calls made on it (the code block with its value and its language).
\<close>

datatype md_part = Markdown string | Codeblock jsval string

type_synonym ref = nat

text \<open>
  A \<open>HistoryTreeItem\<close> object. \<open>label\<close> and \<open>tooltip\<close> are the properties of the
  \<open>TreeItem\<close> base class that the constructor sets; \<open>parent\<close> is \<open>_parent\<close> (\<open>None\<close> for
  \<open>null\<close>) and \<open>children\<close> is \<open>_children\<close>, both holding references.
\<close>

record item =
  label :: string
  uniqLabel :: jsval
  query :: jsval
  time :: jsval
  duration :: jsval
  parent :: "ref option"
  children :: "ref list"
  errorMsg :: jsval
  contextValue :: string
  tooltip :: "md_part list"

text \<open>An object literal of the type \<open>History\<close>.\<close>

definition History :: "string \<Rightarrow> int \<Rightarrow> int \<Rightarrow> string \<Rightarrow> string \<Rightarrow> jsval" where
  "History l t d q e =
     Obj [(''uniqLabel'', Str l), (''time'', DateV t), (''duration'', Num d),
          (''query'', Str q), (''errorMsg'', Str e)]"

text \<open>
  Reading one of the five properties \<open>uniqLabel\<close>, \<open>time\<close>, \<open>duration\<close>, \<open>query\<close>,
  \<open>errorMsg\<close> (none of them is inherited from a prototype): a \<open>TypeError\<close> on \<open>null\<close> and
  \<open>undefined\<close>, the own property of an object (the last binding of the name), and
  \<open>undefined\<close> otherwise.
\<close>

fun get_prop :: "jsval \<Rightarrow> string \<Rightarrow> error + jsval" where
  "get_prop Undefined k = Inl TypeError"
| "get_prop Null k = Inl TypeError"
| "get_prop (Obj kvs) k = Inr (case map_of (rev kvs) k of None \<Rightarrow> Undefined | Some v \<Rightarrow> v)"
| "get_prop v k = Inr Undefined"

fun truthy :: "jsval \<Rightarrow> bool" where
  "truthy Undefined = False"
| "truthy Null = False"
| "truthy (Bool b) = b"
| "truthy (Num n) = (n \<noteq> 0)"
| "truthy (Str s) = (s \<noteq> [])"
| "truthy v = True"

definition newline :: string where
  "newline = [CHR 0x0A]"

text \<open>
  The constructor. The first thing evaluated is the argument of \<open>super\<close>,
  \<open>history.uniqLabel.replace(',', '-')\<close>: a \<open>TypeError\<close> unless \<open>history\<close> has properties
  and its \<open>uniqLabel\<close> is a string (no other value has a \<open>replace\<close> method). After that
  the other properties are stored as they are, and the calls on the \<open>MarkdownString\<close>
  are recorded with their arguments.
\<close>

definition new_HistoryTreeItem :: "host \<Rightarrow> jsval \<Rightarrow> ref option \<Rightarrow> error + item" where
  "new_HistoryTreeItem H history p =
     (case get_prop history ''uniqLabel'' of
        Inl err \<Rightarrow> Inl err
      | Inr u \<Rightarrow>
          (case u of
             Str l \<Rightarrow>
               (case (get_prop history ''time'', get_prop history ''duration'',
                      get_prop history ''query'', get_prop history ''errorMsg'') of
                  (Inr t, Inr d, Inr q, Inr e) \<Rightarrow>
                    Inr \<lparr>label = replace '','' ''-'' l @ '' | '' @ format H t ''HH:mm:ss'',
                         uniqLabel = u, query = q, time = t, duration = d,
                         parent = p, children = [], errorMsg = e,
                         contextValue = ''history'',
                         tooltip =
                           [Markdown (''- server: '' @ replace '','' ''-'' l @ newline),
                            Markdown (''- time: '' @ format H t ''YYYY.MM.DD HH:mm:ss.SSS''
                                      @ newline),
                            Markdown (''- duration: '' @ to_string H d @ newline)] @
                           (if truthy e then [Markdown ''- error:'', Codeblock e ''q'']
                            else [Markdown ''- query:'', Codeblock q ''q''])\<rparr>
                | _ \<Rightarrow> Inl TypeError)
           | _ \<Rightarrow> Inl TypeError))"

subsection \<open>The state\<close>

text \<open>
  The regular files of the disk with their text (\<open>disk\<close>), its directories (\<open>dirs\<close>; the
  root, the empty path, is always one), the changing calls that the operating system
  refuses whatever the directories are (\<open>refused\<close>: permissions, a read-only or full
  file system), the file-system calls made so far, the objects by reference, the static
  \<open>HistoryTreeItem.currentHistoryTree\<close>, and the emitters that fired (every \<open>fire\<close> of
  this module passes \<open>undefined\<close>, so the reference of the object whose
  \<open>_onDidChangeTreeData\<close> fired is all there is to record).
\<close>

datatype fs_op =
    Access path
  | Mkdir path
  | CopyFile path path
  | Unlink path
  | WriteFile path string
  | ReadFile path

record world =
  disk :: "path \<rightharpoonup> string"
  dirs :: "path set"
  refused :: "fs_op \<Rightarrow> errno option"
  fs_log :: "fs_op list"
  heap :: "ref \<rightharpoonup> item"
  next_ref :: ref
  currentHistoryTree :: "ref option"
  fired :: "ref list"

definition alloc :: "item \<Rightarrow> world \<Rightarrow> ref \<times> world" where
  "alloc it w = (next_ref w, w\<lparr>heap := (heap w)(next_ref w \<mapsto> it), next_ref := Suc (next_ref w)\<rparr>)"

definition fire :: "ref \<Rightarrow> world \<Rightarrow> world" where
  "fire r w = w\<lparr>fired := fired w @ [r]\<rparr>"

definition set_children :: "ref \<Rightarrow> ref list \<Rightarrow> world \<Rightarrow> world" where
  "set_children r cs w =
     (case heap w r of
        None \<Rightarrow> w
      | Some it \<Rightarrow> w\<lparr>heap := (heap w)(r \<mapsto> it\<lparr>children := cs\<rparr>)\<rparr>)"

subsection \<open>File-system calls\<close>

text \<open>
  The calls of \<open>fs/promises\<close>. Every call is logged. A call that changes the disk is
  rejected with the code of \<open>refused\<close> when the operating system refuses it, and
  otherwise when the files and directories do not allow it; a rejected call changes
  nothing. The existence check and the read of a regular file are not refused.
\<close>

definition logged :: "fs_op \<Rightarrow> world \<Rightarrow> world" where
  "logged op w = w\<lparr>fs_log := fs_log w @ [op]\<rparr>"

definition rejected :: "fs_op \<Rightarrow> errno \<Rightarrow> world \<Rightarrow> error option \<times> world" where
  "rejected op e w = (Some (SystemError e), logged op w)"

definition is_dir :: "world \<Rightarrow> path \<Rightarrow> bool" where
  "is_dir w p \<longleftrightarrow> p = [] \<or> p \<in> dirs w"

text \<open>
  Resolving \<open>p\<close> as a directory, from the root down: the first component that is not a
  directory ends it, with \<open>ENOTDIR\<close> when it is a regular file and \<open>ENOENT\<close> when it
  is missing.
\<close>

definition dir_error :: "world \<Rightarrow> path \<Rightarrow> errno option" where
  "dir_error w p =
     (case find (\<lambda>q. \<not> is_dir w q) (prefixes p) of
        None \<Rightarrow> None
      | Some q \<Rightarrow> if disk w q \<noteq> None then Some ENOTDIR else Some ENOENT)"

text \<open>
  Modelled from the spec: \<open>fileExists\<close> of \<open>util/fs-utils\<close> is not among the sources; the
  specification reads it as "the storage location has a file".
\<close>

definition fileExists :: "path \<Rightarrow> world \<Rightarrow> bool \<times> world" where
  "fileExists p w = (disk w p \<noteq> None, logged (Access p) w)"

text \<open>
  \<open>fs.mkdir(p, { recursive: true })\<close>: every missing directory on the way to \<open>p\<close>, and
  \<open>p\<close> itself, is created; directories that exist are left alone. A regular file on the
  way rejects the call with \<open>ENOTDIR\<close>, a regular file at \<open>p\<close> with \<open>EEXIST\<close>.
\<close>

definition mkdir :: "path \<Rightarrow> world \<Rightarrow> error option \<times> world" where
  "mkdir p w =
     (case refused w (Mkdir p) of
        Some e \<Rightarrow> rejected (Mkdir p) e w
      | None \<Rightarrow>
          (case find (\<lambda>q. disk w q \<noteq> None) (prefixes p) of
             Some q \<Rightarrow> rejected (Mkdir p) (if q = p then EEXIST else ENOTDIR) w
           | None \<Rightarrow> (None, (logged (Mkdir p) w)\<lparr>dirs := dirs w \<union> set (prefixes p)\<rparr>)))"

text \<open>
  \<open>fs.copyFile(src, dst)\<close>: the source must be a regular file; the destination must not
  be a directory and must lie in a directory; a regular file at the destination is
  overwritten.
\<close>

definition copyFile :: "path \<Rightarrow> path \<Rightarrow> world \<Rightarrow> error option \<times> world" where
  "copyFile src dst w =
     (case refused w (CopyFile src dst) of
        Some e \<Rightarrow> rejected (CopyFile src dst) e w
      | None \<Rightarrow>
          (case disk w src of
             None \<Rightarrow> rejected (CopyFile src dst) (if is_dir w src then EISDIR else ENOENT) w
           | Some c \<Rightarrow>
               if is_dir w dst then rejected (CopyFile src dst) EISDIR w
               else (case dir_error w (dirname dst) of
                       Some e \<Rightarrow> rejected (CopyFile src dst) e w
                     | None \<Rightarrow>
                         (None, (logged (CopyFile src dst) w)\<lparr>disk := (disk w)(dst \<mapsto> c)\<rparr>))))"

definition unlink :: "path \<Rightarrow> world \<Rightarrow> error option \<times> world" where
  "unlink p w =
     (case refused w (Unlink p) of
        Some e \<Rightarrow> rejected (Unlink p) e w
      | None \<Rightarrow>
          (case disk w p of
             None \<Rightarrow> rejected (Unlink p) (if is_dir w p then EISDIR else ENOENT) w
           | Some c \<Rightarrow> (None, (logged (Unlink p) w)\<lparr>disk := (disk w)(p := None)\<rparr>)))"

text \<open>
  \<open>fs.writeFile(p, c, 'utf8')\<close>: \<open>p\<close> must not be a directory and must lie in a
  directory; the file is created or overwritten.
\<close>

definition writeFile :: "path \<Rightarrow> string \<Rightarrow> world \<Rightarrow> error option \<times> world" where
  "writeFile p c w =
     (case refused w (WriteFile p c) of
        Some e \<Rightarrow> rejected (WriteFile p c) e w
      | None \<Rightarrow>
          if is_dir w p then rejected (WriteFile p c) EISDIR w
          else (case dir_error w (dirname p) of
                  Some e \<Rightarrow> rejected (WriteFile p c) e w
                | None \<Rightarrow> (None, (logged (WriteFile p c) w)\<lparr>disk := (disk w)(p \<mapsto> c)\<rparr>)))"

definition readFile :: "path \<Rightarrow> world \<Rightarrow> (error + string) \<times> world" where
  "readFile p w =
     (case disk w p of
        None \<Rightarrow> Inl (SystemError (if is_dir w p then EISDIR else ENOENT))
      | Some c \<Rightarrow> Inr c,
      logged (ReadFile p) w)"

text \<open>Sequencing of awaited calls: the first rejection ends the function.\<close>

definition and_then ::
  "error option \<times> world \<Rightarrow> (world \<Rightarrow> error option \<times> world) \<Rightarrow> error option \<times> world" where
  "and_then m f = (case m of (Some err, w) \<Rightarrow> (Some err, w) | (None, w) \<Rightarrow> f w)"

subsection \<open>The operations\<close>

definition createHistoryTree :: "host \<Rightarrow> int \<Rightarrow> world \<Rightarrow> error + ref \<times> world" where
  "createHistoryTree H now w =
     (case currentHistoryTree w of
        Some r \<Rightarrow> Inr (r, w)
      | None \<Rightarrow>
          (case new_HistoryTreeItem H (History ''root'' now 0 [] []) None of
             Inl err \<Rightarrow> Inl err
           | Inr it \<Rightarrow>
               (case alloc it w of (r, w') \<Rightarrow> Inr (r, w'\<lparr>currentHistoryTree := Some r\<rparr>))))"

text \<open>
  \<open>histories.map(h => new HistoryTreeItem(h, HistoryTreeItem.currentHistoryTree))\<close>: the
  objects are created in order; an exception of a constructor ends the loop, and the
  objects created before it are unreachable (they are dropped with the failed result).
\<close>

fun new_items :: "host \<Rightarrow> jsval list \<Rightarrow> world \<Rightarrow> error + ref list \<times> world" where
  "new_items H [] w = Inr ([], w)"
| "new_items H (h # hs) w =
     (case new_HistoryTreeItem H h (currentHistoryTree w) of
        Inl err \<Rightarrow> Inl err
      | Inr it \<Rightarrow>
          (case alloc it w of
             (r, w1) \<Rightarrow>
               (case new_items H hs w1 of
                  Inl err \<Rightarrow> Inl err
                | Inr (rs, w2) \<Rightarrow> Inr (r # rs, w2))))"

text \<open>
  Lines 80 to 88 of \<open>refresh\<close>: the history file is created when it is missing, from the
  file of the old location when there is one. Each call is awaited: the rejection of
  one of them ends \<open>refresh\<close> with what the calls before it have done.
\<close>

definition initialise :: "host \<Rightarrow> world \<Rightarrow> error option \<times> world" where
  "initialise H w =
     (case fileExists (historyPath H) w of
        (ex, w1) \<Rightarrow>
          if \<not> ex then
            and_then (mkdir (dirname (historyPath H)) w1)
              (\<lambda>w2. case fileExists (oldHistoryPath H) w2 of
                 (old, w3) \<Rightarrow>
                   if old then
                     and_then (copyFile (oldHistoryPath H) (historyPath H) w3)
                       (unlink (oldHistoryPath H))
                   else writeFile (historyPath H) ''[]'' w3)
          else (None, w1))"

text \<open>
  Lines 89 to 91: the file is read and parsed, and the parsed value is used as an array
  of histories without any check. A value other than an array has no \<open>map\<close> method: a
  \<open>TypeError\<close>. \<open>_children\<close> is assigned only after every item has been constructed.
\<close>

definition load :: "host \<Rightarrow> ref \<Rightarrow> world \<Rightarrow> error option \<times> world" where
  "load H this w =
     (case readFile (historyPath H) w of
        (Inl err, w1) \<Rightarrow> (Some err, w1)
      | (Inr txt, w1) \<Rightarrow>
          (case JSON_parse H txt of
             None \<Rightarrow> (Some SyntaxError, w1)
           | Some v \<Rightarrow>
               (case v of
                  Arr histories \<Rightarrow>
                    (case new_items H histories w1 of
                       Inl err \<Rightarrow> (Some err, w1)
                     | Inr (rs, w2) \<Rightarrow> (None, fire this (set_children this rs w2)))
                | _ \<Rightarrow> (Some TypeError, w1))))"

text \<open>
  \<open>refresh\<close> is a method: \<open>this\<close> is the reference of the object it is called on. The
  result is the rejection of the promise, if any, and the state the call leaves.
\<close>

definition refresh :: "host \<Rightarrow> ref \<Rightarrow> world \<Rightarrow> error option \<times> world" where
  "refresh H this w =
     (case heap w this of
        None \<Rightarrow> (Some TypeError, w)
      | Some it \<Rightarrow>
          if parent it \<noteq> None then (None, w)
          else if length (children it) > 0 then (None, fire this w)
          else and_then (initialise H w) (load H this))"

definition getParent :: "ref \<Rightarrow> world \<Rightarrow> error + ref option" where
  "getParent this w = (case heap w this of None \<Rightarrow> Inl TypeError | Some it \<Rightarrow> Inr (parent it))"

text \<open>
  The argument of \<open>getChildren\<close>: absent, a \<open>HistoryTreeItem\<close>, or another \<open>TreeItem\<close> of
  the host.
\<close>

datatype tree_arg = NoArg | HistoryItem ref | OtherItem

definition children_of :: "world \<Rightarrow> ref \<Rightarrow> error + ref list" where
  "children_of w r = (case heap w r of None \<Rightarrow> Inl TypeError | Some it \<Rightarrow> Inr (children it))"

fun getChildren :: "ref \<Rightarrow> tree_arg \<Rightarrow> world \<Rightarrow> error + ref list" where
  "getChildren this (HistoryItem e) w = children_of w e"
| "getChildren this OtherItem w = Inr []"
| "getChildren this NoArg w = children_of w this"

text \<open>
  \<open>appendHistory\<close>: \<open>currentHistoryTree._children\<close> is evaluated first (a \<open>TypeError\<close>
  before the tree is created), then the item is constructed and put in front. The
  promise of \<open>refresh\<close> is not awaited: its rejection would not reach the caller.
\<close>

definition appendHistory :: "host \<Rightarrow> jsval \<Rightarrow> world \<Rightarrow> error option \<times> world" where
  "appendHistory H history w =
     (case currentHistoryTree w of
        None \<Rightarrow> (Some TypeError, w)
      | Some r \<Rightarrow>
          (case heap w r of
             None \<Rightarrow> (Some TypeError, w)
           | Some root \<Rightarrow>
               (case new_HistoryTreeItem H history (currentHistoryTree w) of
                  Inl err \<Rightarrow> (Some err, w)
                | Inr it \<Rightarrow>
                    (case alloc it w of
                       (c, w1) \<Rightarrow>
                         (None, snd (refresh H r (set_children r (c # children root) w1)))))))"

section \<open>A sample host\<close>

text \<open>
  To run the model on concrete files, a host is needed. Its parser reads the JSON
  grammar (ECMA-404) restricted to strings without escape sequences and to integer
  numbers without exponent; on such texts it yields what \<open>JSON.parse\<close> yields. The
  recursion is bounded by the length of the text.
\<close>

definition is_ws :: "char \<Rightarrow> bool" where
  "is_ws c = (c = CHR '' '' \<or> c = CHR 0x09 \<or> c = CHR 0x0A \<or> c = CHR 0x0D)"

definition skip_ws :: "string \<Rightarrow> string" where
  "skip_ws s = dropWhile is_ws s"

definition is_digit :: "char \<Rightarrow> bool" where
  "is_digit c = (48 \<le> (of_char c :: nat) \<and> (of_char c :: nat) \<le> 57)"

definition digit_val :: "char \<Rightarrow> int" where
  "digit_val c = int (of_char c) - 48"

fun parse_chars :: "string \<Rightarrow> (string \<times> string) option" where
  "parse_chars [] = None"
| "parse_chars (c # cs) =
     (if c = CHR 0x22 then Some ([], cs)
      else if c = CHR 0x5C \<or> (of_char c :: nat) < 32 then None
      else (case parse_chars cs of None \<Rightarrow> None | Some (s, r) \<Rightarrow> Some (c # s, r)))"

definition parse_digits :: "string \<Rightarrow> (int \<times> string) option" where
  "parse_digits s =
     (let ds = takeWhile is_digit s in
      if ds = [] \<or> (length ds > 1 \<and> hd ds = CHR ''0'') then None
      else Some (foldl (\<lambda>n c. 10 * n + digit_val c) 0 ds, dropWhile is_digit s))"

definition parse_number :: "string \<Rightarrow> (jsval \<times> string) option" where
  "parse_number s =
     (case s of
        [] \<Rightarrow> None
      | c # cs \<Rightarrow>
          if c = CHR ''-''
          then (case parse_digits cs of None \<Rightarrow> None | Some (n, r) \<Rightarrow> Some (Num (- n), r))
          else (case parse_digits s of None \<Rightarrow> None | Some (n, r) \<Rightarrow> Some (Num n, r)))"

fun parse_value :: "nat \<Rightarrow> string \<Rightarrow> (jsval \<times> string) option"
  and parse_elements :: "nat \<Rightarrow> string \<Rightarrow> (jsval list \<times> string) option"
  and parse_members :: "nat \<Rightarrow> string \<Rightarrow> ((string \<times> jsval) list \<times> string) option" where
  "parse_value 0 s = None"
| "parse_value (Suc n) s =
     (case skip_ws s of
        [] \<Rightarrow> None
      | c # cs \<Rightarrow>
          if c = CHR 0x22
          then (case parse_chars cs of None \<Rightarrow> None | Some (x, r) \<Rightarrow> Some (Str x, r))
          else if c = CHR ''[''
          then (case skip_ws cs of
                  [] \<Rightarrow> None
                | d # r \<Rightarrow>
                    if d = CHR '']'' then Some (Arr [], r)
                    else (case parse_elements n cs of
                            None \<Rightarrow> None
                          | Some (vs, r') \<Rightarrow> Some (Arr vs, r')))
          else if c = CHR ''{''
          then (case skip_ws cs of
                  [] \<Rightarrow> None
                | d # r \<Rightarrow>
                    if d = CHR ''}'' then Some (Obj [], r)
                    else (case parse_members n cs of
                            None \<Rightarrow> None
                          | Some (kvs, r') \<Rightarrow> Some (Obj kvs, r')))
          else if take 4 (c # cs) = ''true'' then Some (Bool True, drop 4 (c # cs))
          else if take 5 (c # cs) = ''false'' then Some (Bool False, drop 5 (c # cs))
          else if take 4 (c # cs) = ''null'' then Some (Null, drop 4 (c # cs))
          else parse_number (c # cs))"
| "parse_elements 0 s = None"
| "parse_elements (Suc n) s =
     (case parse_value n s of
        None \<Rightarrow> None
      | Some (v, r) \<Rightarrow>
          (case skip_ws r of
             [] \<Rightarrow> None
           | c # r' \<Rightarrow>
               if c = CHR '','' then
                 (case parse_elements n r' of
                    None \<Rightarrow> None
                  | Some (vs, r'') \<Rightarrow> Some (v # vs, r''))
               else if c = CHR '']'' then Some ([v], r')
               else None))"
| "parse_members 0 s = None"
| "parse_members (Suc n) s =
     (case skip_ws s of
        [] \<Rightarrow> None
      | q # s1 \<Rightarrow>
          if q \<noteq> CHR 0x22 then None
          else (case parse_chars s1 of
                  None \<Rightarrow> None
                | Some (k, s2) \<Rightarrow>
                    (case skip_ws s2 of
                       [] \<Rightarrow> None
                     | c # s3 \<Rightarrow>
                         if c \<noteq> CHR '':'' then None
                         else (case parse_value n s3 of
                                 None \<Rightarrow> None
                               | Some (v, r) \<Rightarrow>
                                   (case skip_ws r of
                                      [] \<Rightarrow> None
                                    | d # r' \<Rightarrow>
                                        if d = CHR '','' then
                                          (case parse_members n r' of
                                             None \<Rightarrow> None
                                           | Some (kvs, r'') \<Rightarrow> Some ((k, v) # kvs, r''))
                                        else if d = CHR ''}'' then Some ([(k, v)], r')
                                        else None)))))"

definition parse_json :: "string \<Rightarrow> jsval option" where
  "parse_json s =
     (case parse_value (Suc (length s)) s of
        None \<Rightarrow> None
      | Some (v, r) \<Rightarrow> if skip_ws r = [] then Some v else None)"

text \<open>
  The other functions of the sample host are stand-ins: the time is not formatted (the
  pattern is returned) and a value in a template literal is rendered for strings and
  \<open>undefined\<close> only. The home directory is \<open>/home/q\<close> and the cache directory
  \<open>/home/q/.cache/vscode-q-nodejs\<close>.
\<close>

definition sample_to_string :: "jsval \<Rightarrow> string" where
  "sample_to_string v = (case v of Str s \<Rightarrow> s | Undefined \<Rightarrow> ''undefined'' | _ \<Rightarrow> ''?'')"

definition sample_host :: host where
  "sample_host =
     \<lparr>JSON_parse = parse_json,
      format = (\<lambda>v pat. pat),
      to_string = sample_to_string,
      homedir = [''home'', ''q''],
      cache = [''home'', ''q'', ''.cache'', ''vscode-q-nodejs'']\<rparr>"

text \<open>
  The state of a process that has just started, on given files (the directories and
  the refusals are set by the environment, see \<open>reach_env\<close> below).
\<close>

definition start :: "(path \<rightharpoonup> string) \<Rightarrow> world" where
  "start d =
     \<lparr>disk = d, dirs = {}, refused = (\<lambda>op. None), fs_log = [], heap = Map.empty,
      next_ref = 0, currentHistoryTree = None, fired = []\<rparr>"

section \<open>Reachable states and notions of the specification\<close>

text \<open>
  The states a process can be in: it starts with no object, and then the tree is created,
  \<open>refresh\<close> is called on an object, a history is appended, or the environment changes
  the files, the directories and what the operating system refuses.
\<close>

inductive reachable :: "host \<Rightarrow> world \<Rightarrow> bool" for H :: host where
  reach_start: "reachable H (start d)"
| reach_create: "reachable H w \<Longrightarrow> createHistoryTree H now w = Inr (r, w') \<Longrightarrow> reachable H w'"
| reach_refresh: "reachable H w \<Longrightarrow> reachable H (snd (refresh H this w))"
| reach_append: "reachable H w \<Longrightarrow> reachable H (snd (appendHistory H h w))"
| reach_env: "reachable H w \<Longrightarrow> reachable H (w\<lparr>disk := d, dirs := ds, refused := r\<rparr>)"

text \<open>
  The shape of the objects in such a state: an item with a parent has no children, the
  only item without a parent is the tree of \<open>currentHistoryTree\<close>, and references not
  yet handed out hold no object.
\<close>

definition wf :: "world \<Rightarrow> bool" where
  "wf w \<longleftrightarrow>
     (\<forall>r it. heap w r = Some it \<longrightarrow> parent it \<noteq> None \<longrightarrow> children it = [])
   \<and> (\<forall>r it. heap w r = Some it \<longrightarrow> parent it = None \<longrightarrow> currentHistoryTree w = Some r)
   \<and> (\<forall>r. currentHistoryTree w = Some r \<longrightarrow> (\<exists>it. heap w r = Some it \<and> parent it = None))
   \<and> (\<forall>r. next_ref w \<le> r \<longrightarrow> heap w r = None)"

text \<open>Two states with the same objects, emitters fired and refusals.\<close>

definition same_objects :: "world \<Rightarrow> world \<Rightarrow> bool" where
  "same_objects w w' \<longleftrightarrow>
     heap w' = heap w \<and> next_ref w' = next_ref w
   \<and> currentHistoryTree w' = currentHistoryTree w \<and> fired w' = fired w
   \<and> refused w' = refused w"


text \<open>A sequence of \<open>appendHistory\<close> calls, in order; an exception ends it.\<close>

fun appendAll :: "host \<Rightarrow> jsval list \<Rightarrow> world \<Rightarrow> error option \<times> world" where
  "appendAll H [] w = (None, w)"
| "appendAll H (h # hs) w = and_then (appendHistory H h w) (appendAll H hs)"

text \<open>The history that an item holds, and the histories behind a list of references.\<close>

definition history_of :: "item \<Rightarrow> jsval" where
  "history_of it =
     Obj [(''uniqLabel'', uniqLabel it), (''time'', time it), (''duration'', duration it),
          (''query'', query it), (''errorMsg'', errorMsg it)]"

definition histories_of :: "world \<Rightarrow> ref list \<Rightarrow> jsval option list" where
  "histories_of w rs = map (\<lambda>r. map_option history_of (heap w r)) rs"

text \<open>
  The rendering that the specification describes for a label: every comma replaced with
  a dash.
\<close>

definition commas_to_dashes :: "string \<Rightarrow> string" where
  "commas_to_dashes l = map (\<lambda>c. if c = CHR '','' then CHR ''-'' else c) l"

text \<open>
  The file format that the specification describes: a JSON array of objects, each with
  the fields \<open>uniqLabel\<close> (string), \<open>time\<close> (a serialised date), \<open>duration\<close> (number),
  \<open>query\<close> (string) and \<open>errorMsg\<close> (string).
\<close>

definition is_history_record :: "jsval \<Rightarrow> bool" where
  "is_history_record v =
     (case v of
        Obj kvs \<Rightarrow>
          (case (get_prop v ''uniqLabel'', get_prop v ''time'', get_prop v ''duration'',
                 get_prop v ''query'', get_prop v ''errorMsg'') of
             (Inr (Str l), Inr (Str t), Inr (Num d), Inr (Str q), Inr (Str e)) \<Rightarrow> True
           | _ \<Rightarrow> False)
      | _ \<Rightarrow> False)"

definition valid_history_text :: "host \<Rightarrow> string \<Rightarrow> bool" where
  "valid_history_text H txt =
     (case JSON_parse H txt of
        Some (Arr vs) \<Rightarrow> list_all is_history_record vs
      | _ \<Rightarrow> False)"

text \<open>A record of the history as a tuple of its five fields, and its object.\<close>

definition as_History :: "string \<times> int \<times> int \<times> string \<times> string \<Rightarrow> jsval" where
  "as_History r = (case r of (l, t, d, q, e) \<Rightarrow> History l t d q e)"

text \<open>What the constructor needs of a history: a string as \<open>uniqLabel\<close>.\<close>

definition has_label :: "jsval \<Rightarrow> bool" where
  "has_label v = (case get_prop v ''uniqLabel'' of Inr (Str l) \<Rightarrow> True | _ \<Rightarrow> False)"

text \<open>What \<open>refresh\<close> needs of the parsed file: an array of such values.\<close>

definition loadable :: "jsval \<Rightarrow> bool" where
  "loadable v = (case v of Arr hs \<Rightarrow> list_all has_label hs | _ \<Rightarrow> False)"

text \<open>
  Sample states: the process after \<open>createHistoryTree\<close> on a given disk (the tree has
  reference 0), and after one history has been appended to it (the item has
  reference 1).
\<close>

definition sample_tree :: "(path \<rightharpoonup> string) \<Rightarrow> world" where
  "sample_tree d =
     (case createHistoryTree sample_host 0 (start d) of
        Inl err \<Rightarrow> start d
      | Inr (r, w) \<Rightarrow> w)"

definition sample_appended :: "(path \<rightharpoonup> string) \<Rightarrow> world" where
  "sample_appended d =
     snd (appendHistory sample_host (History ''tag,srv'' 1000 5 ''til 3'' []) (sample_tree d))"



definition refuse :: "fs_op \<Rightarrow> errno \<Rightarrow> fs_op \<Rightarrow> errno option" where
  "refuse op e = (\<lambda>x. if x = op then Some e else None)"



text \<open>
  A history file that does not have the format of the specification: its only element
  has no \<open>time\<close> and no \<open>duration\<close>.
\<close>

definition sample_unchecked :: string where
  "sample_unchecked = ''[{\"uniqLabel\":\"s\",\"query\":\"1\",\"errorMsg\":\"\"}]''"

definition sample_root_item :: item where
  "sample_root_item =
     \<lparr>label = ''root | HH:mm:ss'', uniqLabel = Str ''root'', query = Str [],
      time = DateV 0, duration = Num 0, parent = None, children = [],
      errorMsg = Str [], contextValue = ''history'',
      tooltip =
        [Markdown (''- server: root'' @ newline),
         Markdown (''- time: YYYY.MM.DD HH:mm:ss.SSS'' @ newline),
         Markdown (''- duration: ?'' @ newline), Markdown ''- query:'',
         Codeblock (Str []) ''q'']\<rparr>"

definition sample_child_item :: item where
  "sample_child_item =
     \<lparr>label = ''tag-srv | HH:mm:ss'', uniqLabel = Str ''tag,srv'',
      query = Str ''til 3'', time = DateV 1000, duration = Num 5,
      parent = Some 0, children = [], errorMsg = Str [],
      contextValue = ''history'',
      tooltip =
        [Markdown (''- server: tag-srv'' @ newline),
         Markdown (''- time: YYYY.MM.DD HH:mm:ss.SSS'' @ newline),
         Markdown (''- duration: ?'' @ newline), Markdown ''- query:'',
         Codeblock (Str ''til 3'') ''q'']\<rparr>"

section \<open>Lemmas about the history tree\<close>

subsection \<open>The constructor\<close>

lemma new_item_History: "new_HistoryTreeItem H (History l t d q e) p = Inr
   \<lparr>label = replace '','' ''-'' l @ '' | '' @ format H (DateV t) ''HH:mm:ss'',
    uniqLabel = Str l, query = Str q, time = DateV t, duration = Num d,
    parent = p, children = [], errorMsg = Str e, contextValue = ''history'',
    tooltip = [Markdown (''- server: '' @ replace '','' ''-'' l @ newline),
       Markdown (''- time: '' @ format H (DateV t) ''YYYY.MM.DD HH:mm:ss.SSS'' @ newline),
       Markdown (''- duration: '' @ to_string H (Num d) @ newline)] @
      (if e \<noteq> [] then [Markdown ''- error:'', Codeblock (Str e) ''q'']
                            else [Markdown ''- query:'', Codeblock (Str q) ''q''])\<rparr>"
  by (simp add: new_HistoryTreeItem_def History_def)

lemma new_item_shape:
  assumes "new_HistoryTreeItem H h p = Inr it"
  shows "parent it = p \<and> children it = []"
  using assms
  by (auto simp: new_HistoryTreeItem_def split: sum.splits jsval.splits prod.splits)

lemma get_prop_total: "get_prop h k = Inr u \<Longrightarrow> \<exists>v. get_prop h k' = Inr v"
  by (cases h) auto

lemma new_item_has_label:
  "(\<exists>it. new_HistoryTreeItem H h p = Inr it) \<longleftrightarrow> has_label h"
  apply (cases h)
  apply (auto simp: new_HistoryTreeItem_def has_label_def split: sum.splits jsval.splits prod.splits)
  done

lemma new_item_fails: "\<not> has_label h \<Longrightarrow> new_HistoryTreeItem H h p = Inl TypeError"
  apply (cases h)
  apply (auto simp: new_HistoryTreeItem_def has_label_def split: sum.splits jsval.splits prod.splits)
  done

subsection \<open>The sample states\<close>

lemma sample_tree_eq:
  "sample_tree d =
     \<lparr>disk = d, dirs = {}, refused = (\<lambda>op. None), fs_log = [],
      heap = [0 \<mapsto> sample_root_item], next_ref = 1,
      currentHistoryTree = Some 0, fired = []\<rparr>"
  by (simp add: sample_tree_def createHistoryTree_def new_item_History alloc_def start_def
      sample_root_item_def sample_host_def sample_to_string_def)

lemma sample_appended_eq:
  "sample_appended d =
     \<lparr>disk = d, dirs = {}, refused = (\<lambda>op. None), fs_log = [],
      heap = [0 \<mapsto> sample_root_item\<lparr>children := [1]\<rparr>, 1 \<mapsto> sample_child_item],
      next_ref = 2, currentHistoryTree = Some 0, fired = [0]\<rparr>"
  apply (simp add: sample_appended_def sample_tree_eq appendHistory_def new_item_History alloc_def
      set_children_def refresh_def fire_def)
  apply (simp add: sample_root_item_def sample_child_item_def sample_host_def sample_to_string_def fun_upd_twist)
  done

subsection \<open>The shape of reachable states\<close>

lemma wf_start: "wf (start d)"
  by (simp add: wf_def start_def)


lemma wf_leaf: "wf w \<Longrightarrow> heap w r = Some it \<Longrightarrow> parent it \<noteq> None \<Longrightarrow> children it = []"
  unfolding wf_def by blast

lemma wf_root: "wf w \<Longrightarrow> heap w r = Some it \<Longrightarrow> parent it = None \<Longrightarrow> currentHistoryTree w = Some r"
  unfolding wf_def by blast

lemma wf_current:
  "wf w \<Longrightarrow> currentHistoryTree w = Some r \<Longrightarrow> \<exists>it. heap w r = Some it \<and> parent it = None"
  unfolding wf_def by blast

lemma wf_fresh: "wf w \<Longrightarrow> next_ref w \<le> r \<Longrightarrow> heap w r = None"
  unfolding wf_def by blast

lemma wf_bound: "wf w \<Longrightarrow> heap w r = Some it \<Longrightarrow> r < next_ref w"
  using wf_fresh [of w r] by (cases "next_ref w \<le> r") auto

lemma wfI:
  assumes "\<And>r it. heap w r = Some it \<Longrightarrow> parent it \<noteq> None \<Longrightarrow> children it = []"
    and "\<And>r it. heap w r = Some it \<Longrightarrow> parent it = None \<Longrightarrow> currentHistoryTree w = Some r"
    and "\<And>r. currentHistoryTree w = Some r \<Longrightarrow> \<exists>it. heap w r = Some it \<and> parent it = None"
    and "\<And>r. next_ref w \<le> r \<Longrightarrow> heap w r = None"
  shows "wf w"
  unfolding wf_def using assms by blast

lemma wf_same_objects:
  assumes "heap w' = heap w" "next_ref w' = next_ref w"
    "currentHistoryTree w' = currentHistoryTree w"
  shows "wf w' = wf w"
  by (simp add: wf_def assms)

lemma same_objects_refl: "same_objects w w"
  by (simp add: same_objects_def)

lemma same_objects_trans: "same_objects w w1 \<Longrightarrow> same_objects w1 w2 \<Longrightarrow> same_objects w w2"
  by (simp add: same_objects_def)

lemma same_objects_logged: "same_objects w (logged op w)"
  by (simp add: same_objects_def logged_def)

lemma same_objects_rejected: "same_objects w (snd (rejected op e w))"
  by (simp add: same_objects_def rejected_def logged_def)

lemma same_objects_fileExists: "same_objects w (snd (fileExists p w))"
  by (simp add: fileExists_def same_objects_logged)

lemma same_objects_mkdir: "same_objects w (snd (mkdir p w))"
  by (simp add: mkdir_def same_objects_rejected split: option.splits)
    (simp add: same_objects_def logged_def)

lemma same_objects_copyFile: "same_objects w (snd (copyFile src dst w))"
  by (simp add: copyFile_def same_objects_rejected split: option.splits)
    (simp add: same_objects_def logged_def)

lemma same_objects_unlink: "same_objects w (snd (unlink p w))"
  by (simp add: unlink_def same_objects_rejected split: option.splits)
    (simp add: same_objects_def logged_def)

lemma same_objects_writeFile: "same_objects w (snd (writeFile p c w))"
  by (simp add: writeFile_def same_objects_rejected split: option.splits)
    (simp add: same_objects_def logged_def)

lemma same_objects_and_then:
  assumes "same_objects w (snd m)" and "\<And>w1. same_objects w1 (snd (f w1))"
  shows "same_objects w (snd (and_then m f))"
proof (cases m)
  case (Pair e w1)
  show ?thesis
  proof (cases e)
    case None
    then show ?thesis
      using Pair assms(1) assms(2) [of w1] same_objects_trans [of w w1 "snd (f w1)"]
      by (simp add: and_then_def)
  next
    case (Some err)
    then show ?thesis using Pair assms(1) by (simp add: and_then_def)
  qed
qed

lemma same_objects_initialise: "same_objects w (snd (initialise H w))"
proof -
  let ?w1 = "logged (Access (historyPath H)) w"
  have 1: "same_objects w ?w1" by (rule same_objects_logged)
  have migrate: "same_objects w3
      (snd (and_then (copyFile (oldHistoryPath H) (historyPath H) w3) (unlink (oldHistoryPath H))))"
    for w3
    by (rule same_objects_and_then [OF same_objects_copyFile same_objects_unlink])
  have inner: "same_objects w2 (snd (case fileExists (oldHistoryPath H) w2 of
       (old, w3) \<Rightarrow>
         if old then and_then (copyFile (oldHistoryPath H) (historyPath H) w3)
                       (unlink (oldHistoryPath H))
         else writeFile (historyPath H) ''[]'' w3))" for w2
    using same_objects_trans [OF same_objects_logged migrate]
      same_objects_trans [OF same_objects_logged same_objects_writeFile]
    by (simp add: fileExists_def)
  have "same_objects ?w1 (snd (and_then (mkdir (dirname (historyPath H)) ?w1)
      (\<lambda>w2. case fileExists (oldHistoryPath H) w2 of
         (old, w3) \<Rightarrow>
           if old then and_then (copyFile (oldHistoryPath H) (historyPath H) w3)
                         (unlink (oldHistoryPath H))
           else writeFile (historyPath H) ''[]'' w3)))"
    by (rule same_objects_and_then [OF same_objects_mkdir inner])
  then show ?thesis
    using 1 same_objects_trans [OF 1] by (simp add: initialise_def fileExists_def)
qed

lemma initialise_objects:
  "heap (snd (initialise H w)) = heap w \<and> next_ref (snd (initialise H w)) = next_ref w
   \<and> currentHistoryTree (snd (initialise H w)) = currentHistoryTree w
   \<and> fired (snd (initialise H w)) = fired w
   \<and> refused (snd (initialise H w)) = refused w"
  using same_objects_initialise [of w H] by (simp add: same_objects_def)

lemma and_then_None: "and_then (None, w) f = f w"
  by (simp add: and_then_def)


lemma initialise_present:
  assumes "disk w (historyPath H) = Some c"
  shows "initialise H w = (None, logged (Access (historyPath H)) w)"
  using assms by (simp add: initialise_def fileExists_def)

lemma wf_child:
  assumes "wf w" "currentHistoryTree w = Some root" "parent it = Some root" "children it = []"
  shows "wf (snd (alloc it w))"
proof -
  let ?n = "next_ref w"
  have fresh: "heap w ?n = None" using wf_fresh [OF assms(1)] by simp
  obtain rt where rt: "heap w root = Some rt" "parent rt = None"
    using wf_current [OF assms(1,2)] by blast
  have ne: "root \<noteq> ?n" using fresh rt by auto
  have hp: "heap (snd (alloc it w)) = (heap w)(?n \<mapsto> it)"
    "next_ref (snd (alloc it w)) = Suc ?n"
    "currentHistoryTree (snd (alloc it w)) = Some root"
    using assms(2) by (simp_all add: alloc_def)
  show ?thesis
  proof (rule wfI)
    fix r x assume "heap (snd (alloc it w)) r = Some x" "parent x \<noteq> None"
    then show "children x = []"
      using wf_leaf [OF assms(1), of r x] assms(4) by (cases "r = ?n") (simp_all add: hp)
  next
    fix r x assume "heap (snd (alloc it w)) r = Some x" "parent x = None"
    then show "currentHistoryTree (snd (alloc it w)) = Some r"
      using wf_root [OF assms(1), of r x] assms(2,3) by (cases "r = ?n") (simp_all add: hp)
  next
    fix r assume "currentHistoryTree (snd (alloc it w)) = Some r"
    then have "r = root" by (simp add: hp)
    then show "\<exists>x. heap (snd (alloc it w)) r = Some x \<and> parent x = None"
      using rt ne hp(1) by simp
  next
    fix r assume "next_ref (snd (alloc it w)) \<le> r"
    then show "heap (snd (alloc it w)) r = None"
      using wf_fresh [OF assms(1), of r] by (simp add: hp)
  qed
qed

lemma alloc_frame:
  "alloc it w = (r, w') \<Longrightarrow>
     r = next_ref w \<and> next_ref w' = Suc r \<and> heap w' = (heap w)(r \<mapsto> it)
     \<and> currentHistoryTree w' = currentHistoryTree w \<and> disk w' = disk w
     \<and> fs_log w' = fs_log w \<and> fired w' = fired w"
  by (auto simp: alloc_def)

lemma new_items_frame:
  assumes "new_items H hs w = Inr (rs, w')"
  shows "currentHistoryTree w' = currentHistoryTree w \<and> disk w' = disk w
     \<and> fs_log w' = fs_log w \<and> fired w' = fired w \<and> next_ref w \<le> next_ref w'
     \<and> (\<forall>r. r < next_ref w \<longrightarrow> heap w' r = heap w r)
     \<and> (\<forall>r\<in>set rs. next_ref w \<le> r)"
  using assms
proof (induction hs arbitrary: w rs)
  case Nil
  then show ?case by simp
next
  case (Cons h hs)
  from Cons.prems obtain it r w1 rs' where
    it: "new_HistoryTreeItem H h (currentHistoryTree w) = Inr it"
    and al: "alloc it w = (r, w1)"
    and rest: "new_items H hs w1 = Inr (rs', w')"
    and rs: "rs = r # rs'"
    by (auto split: sum.splits prod.splits)
  note f = alloc_frame [OF al]
  note ih = Cons.IH [OF rest]
  show ?case using f ih rs by auto
qed

lemma new_items_wf:
  assumes "new_items H hs w = Inr (rs, w')" "wf w" "currentHistoryTree w = Some root"
  shows "wf w'"
  using assms
proof (induction hs arbitrary: w rs)
  case Nil
  then show ?case by simp
next
  case (Cons h hs)
  from Cons.prems(1) obtain it r w1 rs' where
    it: "new_HistoryTreeItem H h (currentHistoryTree w) = Inr it"
    and al: "alloc it w = (r, w1)"
    and rest: "new_items H hs w1 = Inr (rs', w')"
    by (auto split: sum.splits prod.splits)
  from new_item_shape [OF it] Cons.prems(3)
  have sh: "parent it = Some root" "children it = []" by simp_all
  have "wf (snd (alloc it w))"
    by (rule wf_child [OF Cons.prems(2) Cons.prems(3) sh])
  then have w1: "wf w1" using al by simp
  have c1: "currentHistoryTree w1 = Some root"
    using alloc_frame [OF al] Cons.prems(3) by simp
  show ?case by (rule Cons.IH [OF rest w1 c1])
qed

lemma wf_set_children:
  assumes "wf w" "heap w r = Some it" "parent it = None"
  shows "wf (set_children r cs w)"
proof -
  let ?w = "set_children r cs w"
  have cur: "currentHistoryTree w = Some r" by (rule wf_root [OF assms])
  have hp: "heap ?w = (heap w)(r \<mapsto> it\<lparr>children := cs\<rparr>)"
    "next_ref ?w = next_ref w" "currentHistoryTree ?w = Some r"
    using assms(2) cur by (simp_all add: set_children_def)
  show ?thesis
  proof (rule wfI)
    fix k x assume "heap ?w k = Some x" "parent x \<noteq> None"
    then show "children x = []"
      using wf_leaf [OF assms(1), of k x] assms(3) by (cases "k = r") (auto simp: hp)
  next
    fix k x assume "heap ?w k = Some x" "parent x = None"
    then show "currentHistoryTree ?w = Some k"
      using wf_root [OF assms(1), of k x] cur by (cases "k = r") (auto simp: hp)
  next
    fix k assume "currentHistoryTree ?w = Some k"
    then have "k = r" by (simp add: hp)
    then show "\<exists>x. heap ?w k = Some x \<and> parent x = None"
      using assms(3) hp(1) by simp
  next
    fix k assume "next_ref ?w \<le> k"
    then show "heap ?w k = None"
      using wf_fresh [OF assms(1), of k] wf_bound [OF assms(1,2)] by (simp add: hp)
  qed
qed

lemma wf_fire: "wf (fire r w) = wf w"
  by (rule wf_same_objects) (simp_all add: fire_def)

lemma wf_env: "wf (w\<lparr>disk := d, dirs := ds, refused := r\<rparr>) = wf w"
  by (rule wf_same_objects) simp_all

lemma readFile_objects:
  "readFile p w = (x, w1) \<Longrightarrow> heap w1 = heap w \<and> next_ref w1 = next_ref w
     \<and> currentHistoryTree w1 = currentHistoryTree w \<and> fired w1 = fired w \<and> disk w1 = disk w"
  by (auto simp: readFile_def logged_def)



lemma wf_load:
  assumes "wf w" "heap w this = Some it" "parent it = None"
  shows "wf (snd (load H this w))"
proof -
  obtain x w1 where rd: "readFile (historyPath H) w = (x, w1)"
    by (cases "readFile (historyPath H) w")
  note o = readFile_objects [OF rd]
  have w1: "wf w1" using o assms(1) wf_same_objects [of w1 w] by simp
  have cur: "currentHistoryTree w1 = Some this"
    using wf_root [OF assms] o by simp
  have th: "heap w1 this = Some it" using o assms(2) by simp
  have lt: "this < next_ref w1"
    by (rule wf_bound [OF w1 th])
  show ?thesis
  proof (cases "\<exists>ctn hs rs w2. x = Inr ctn \<and> JSON_parse H ctn = Some (Arr hs)
                  \<and> new_items H hs w1 = Inr (rs, w2)")
    case True
    then obtain ctn hs rs w2 where x: "x = Inr ctn" and p: "JSON_parse H ctn = Some (Arr hs)"
      and n: "new_items H hs w1 = Inr (rs, w2)" by blast
    have w2: "wf w2" by (rule new_items_wf [OF n w1 cur])
    have "heap w2 this = Some it" using new_items_frame [OF n] lt th by simp
    then have "wf (set_children this rs w2)"
      using wf_set_children [OF w2 _ assms(3)] by simp
    then show ?thesis using rd x p n by (simp add: load_def wf_fire)
  next
    case False
    then have "snd (load H this w) = w1"
      using rd by (auto simp: load_def split: sum.splits option.splits jsval.splits)
    then show ?thesis using w1 by simp
  qed
qed

lemma wf_refresh:
  assumes "wf w"
  shows "wf (snd (refresh H this w))"
proof (cases "heap w this")
  case None
  then show ?thesis using assms by (simp add: refresh_def)
next
  case (Some it)
  show ?thesis
  proof (cases "parent it = None \<and> children it = []")
    case False
    then show ?thesis using assms Some by (auto simp: refresh_def wf_fire)
  next
    case True
    obtain e w1 where i: "initialise H w = (e, w1)" by (cases "initialise H w")
    have o: "heap w1 = heap w" "next_ref w1 = next_ref w"
      "currentHistoryTree w1 = currentHistoryTree w"
      using initialise_objects [of H w] i by simp_all
    have w1: "wf w1" using wf_same_objects [OF o] assms by simp
    have "wf (snd (load H this w1))"
      by (rule wf_load [OF w1]) (use o Some True in auto)
    then show ?thesis using Some True i w1
      by (cases e) (simp_all add: refresh_def and_then_def)
  qed
qed

lemma wf_appendHistory:
  assumes "wf w"
  shows "wf (snd (appendHistory H h w))"
proof (cases "\<exists>r root it. currentHistoryTree w = Some r \<and> heap w r = Some root
          \<and> new_HistoryTreeItem H h (currentHistoryTree w) = Inr it")
  case False
  then have "snd (appendHistory H h w) = w"
    by (auto simp: appendHistory_def split: option.splits sum.splits)
  then show ?thesis using assms by simp
next
  case True
  then obtain r root it where c: "currentHistoryTree w = Some r" and h: "heap w r = Some root"
    and n: "new_HistoryTreeItem H h (currentHistoryTree w) = Inr it" by blast
  obtain k w1 where al: "alloc it w = (k, w1)" by (cases "alloc it w")
  have pr: "parent root = None" using wf_current [OF assms c] h by auto
  have sh: "parent it = Some r" "children it = []" using new_item_shape [OF n] c by simp_all
  have w1: "wf w1" using wf_child [OF assms c sh] al by simp
  have lt: "r < next_ref w" by (rule wf_bound [OF assms h])
  have h1: "heap w1 r = Some root" using alloc_frame [OF al] lt h by simp
  have "wf (set_children r (k # children root) w1)"
    by (rule wf_set_children [OF w1 h1 pr])
  then have "wf (snd (refresh H r (set_children r (k # children root) w1)))"
    by (rule wf_refresh)
  then show ?thesis using c h n al by (simp add: appendHistory_def)
qed

lemma wf_createHistoryTree:
  assumes "wf w" "createHistoryTree H now w = Inr (r, w')"
  shows "wf w'"
proof (cases "currentHistoryTree w")
  case (Some a)
  then show ?thesis using assms by (simp add: createHistoryTree_def)
next
  case None
  have noroot: "parent x \<noteq> None" if "heap w k = Some x" for k x
    using wf_root [OF assms(1) that] None by auto
  let ?n = "next_ref w"
  from assms(2) None obtain it where
    n: "new_HistoryTreeItem H (History ''root'' now 0 [] []) None = Inr it"
    and w': "w' = (snd (alloc it w))\<lparr>currentHistoryTree := Some ?n\<rparr>"
    by (auto simp: createHistoryTree_def alloc_def split: sum.splits)
  have sh: "parent it = None" "children it = []" using new_item_shape [OF n] by simp_all
  have hp: "heap w' = (heap w)(?n \<mapsto> it)" "next_ref w' = Suc ?n"
    "currentHistoryTree w' = Some ?n"
    by (simp_all add: w' alloc_def)
  show ?thesis
  proof (rule wfI)
    fix k x assume "heap w' k = Some x" "parent x \<noteq> None"
    then show "children x = []"
      using wf_leaf [OF assms(1), of k x] sh by (cases "k = ?n") (auto simp: hp)
  next
    fix k x assume "heap w' k = Some x" "parent x = None"
    then show "currentHistoryTree w' = Some k"
      using noroot [of k x] by (cases "k = ?n") (auto simp: hp)
  next
    fix k assume "currentHistoryTree w' = Some k"
    then have "k = ?n" by (simp add: hp)
    then show "\<exists>x. heap w' k = Some x \<and> parent x = None"
      using sh hp(1) by simp
  next
    fix k assume "next_ref w' \<le> k"
    then show "heap w' k = None"
      using wf_fresh [OF assms(1), of k] by (simp add: hp)
  qed
qed

lemma reachable_wf: "reachable H w \<Longrightarrow> wf w"
proof (induction rule: reachable.induct)
  case (reach_start d)
  show ?case by (rule wf_start)
next
  case (reach_create w now r w')
  then show ?case using wf_createHistoryTree by blast
next
  case (reach_refresh w this)
  then show ?case by (simp add: wf_refresh)
next
  case (reach_append w h)
  then show ?case by (simp add: wf_appendHistory)
next
  case (reach_env w d ds r)
  then show ?case by (simp add: wf_env)
qed


subsection \<open>Reading the children\<close>

lemma getChildren_root:
  "heap w this = Some it \<Longrightarrow> getChildren this NoArg w = Inr (children it)"
  by (simp add: children_of_def)

lemma refresh_cached:
  assumes "heap w this = Some it" "parent it = None" "children it \<noteq> []"
  shows "refresh H this w = (None, fire this w)"
  using assms by (simp add: refresh_def)

lemma wf_non_root:
  assumes "wf w" "currentHistoryTree w = Some root" "heap w e = Some it" "e \<noteq> root"
  shows "parent it \<noteq> None \<and> children it = []"
proof -
  have "parent it \<noteq> None" using wf_root [OF assms(1,3)] assms(2,4) by auto
  then show ?thesis using wf_leaf [OF assms(1,3)] by simp
qed

lemma sample_tree_created:
  "createHistoryTree sample_host 0 (start d) = Inr (0, sample_tree d)"
  by (simp add: sample_tree_def createHistoryTree_def new_item_History alloc_def start_def)

lemma sample_appended_reachable: "reachable sample_host (sample_appended d)"
  unfolding sample_appended_def
  by (rule reach_append [OF reach_create [OF reach_start sample_tree_created]])

subsection \<open>Appending\<close>

lemma refresh_no_fs:
  assumes "\<And>it. heap w r = Some it \<Longrightarrow> parent it \<noteq> None \<or> children it \<noteq> []"
  shows "disk (snd (refresh H r w)) = disk w \<and> fs_log (snd (refresh H r w)) = fs_log w"
proof (cases "heap w r")
  case None
  then show ?thesis by (simp add: refresh_def)
next
  case (Some it)
  then show ?thesis using assms [OF Some] by (auto simp: refresh_def fire_def)
qed

lemma set_children_frame:
  "disk (set_children r cs w) = disk w \<and> fs_log (set_children r cs w) = fs_log w
   \<and> fired (set_children r cs w) = fired w \<and> next_ref (set_children r cs w) = next_ref w
   \<and> currentHistoryTree (set_children r cs w) = currentHistoryTree w"
  by (simp add: set_children_def split: option.splits)

lemma set_children_heap:
  "heap (set_children r cs w) r = map_option (\<lambda>it. it\<lparr>children := cs\<rparr>) (heap w r)"
  by (simp add: set_children_def split: option.splits)

lemma appendHistory_disk:
  "disk (snd (appendHistory H h w)) = disk w \<and> fs_log (snd (appendHistory H h w)) = fs_log w"
proof (cases "\<exists>r root it. currentHistoryTree w = Some r \<and> heap w r = Some root
          \<and> new_HistoryTreeItem H h (currentHistoryTree w) = Inr it")
  case False
  then have "snd (appendHistory H h w) = w"
    by (auto simp: appendHistory_def split: option.splits sum.splits)
  then show ?thesis by simp
next
  case True
  then obtain r root it where c: "currentHistoryTree w = Some r" and h: "heap w r = Some root"
    and n: "new_HistoryTreeItem H h (currentHistoryTree w) = Inr it" by blast
  obtain k w1 where al: "alloc it w = (k, w1)" by (cases "alloc it w")
  let ?w2 = "set_children r (k # children root) w1"
  have e: "snd (appendHistory H h w) = snd (refresh H r ?w2)"
    using c h n al by (simp add: appendHistory_def)
  have "parent x \<noteq> None \<or> children x \<noteq> []" if "heap ?w2 r = Some x" for x
    using that by (auto simp: set_children_heap)
  from refresh_no_fs [of ?w2 r H, OF this]
  have "disk (snd (refresh H r ?w2)) = disk ?w2 \<and> fs_log (snd (refresh H r ?w2)) = fs_log ?w2"
    by simp
  then show ?thesis
    unfolding e using set_children_frame [of r "k # children root" w1] alloc_frame [OF al]
    by simp
qed

lemma appendHistory_eq:
  assumes "wf w" "currentHistoryTree w = Some r" "heap w r = Some root"
    "new_HistoryTreeItem H h (Some r) = Inr it"
  shows "appendHistory H h w =
    (None, w\<lparr>heap := (heap w)(next_ref w \<mapsto> it,
                              r \<mapsto> root\<lparr>children := next_ref w # children root\<rparr>),
             next_ref := Suc (next_ref w), fired := fired w @ [r]\<rparr>)"
proof -
  have pr: "parent root = None" using wf_current [OF assms(1,2)] assms(3) by auto
  have ne: "r \<noteq> next_ref w" using wf_bound [OF assms(1,3)] by simp
  show ?thesis
    using assms(2,3,4) pr ne
    by (simp add: appendHistory_def alloc_def set_children_def refresh_def fire_def)
qed

lemma has_label_new_item: "has_label h \<Longrightarrow> \<exists>it. new_HistoryTreeItem H h p = Inr it"
  using new_item_has_label [of H h p] by simp

lemma sample_tree_reachable: "reachable sample_host (sample_tree d)"
  by (rule reach_create [OF reach_start sample_tree_created])

lemma History_has_label: "has_label (History l t d q e)"
  by (simp add: has_label_def History_def)

lemma history_of_new_item:
  assumes "new_HistoryTreeItem H (History l t d q e) p = Inr it"
  shows "history_of it = History l t d q e"
proof -
  from assms have "history_of it = history_of (projr (new_HistoryTreeItem H (History l t d q e) p))"
    by simp
  also have "\<dots> = History l t d q e"
    unfolding new_item_History by (simp add: history_of_def History_def)
  finally show ?thesis .
qed

lemma as_History_has_label: "has_label (as_History x)"
  by (cases x) (simp add: as_History_def History_has_label)

lemma history_of_as_History:
  assumes "new_HistoryTreeItem H (as_History x) p = Inr it"
  shows "history_of it = as_History x"
  using assms by (cases x) (simp add: as_History_def history_of_new_item)

lemma appendAll_order:
  assumes "wf w" "currentHistoryTree w = Some r" "heap w r = Some root"
  shows "\<exists>w' new root'.
      appendAll H (map as_History rs) w = (None, w')
    \<and> wf w' \<and> currentHistoryTree w' = Some r \<and> heap w' r = Some root'
    \<and> children root' = new @ children root
    \<and> histories_of w' new = map (\<lambda>x. Some (as_History x)) (rev rs)
    \<and> (\<forall>k. k < next_ref w \<and> k \<noteq> r \<longrightarrow> heap w' k = heap w k)
    \<and> next_ref w \<le> next_ref w' \<and> disk w' = disk w \<and> fs_log w' = fs_log w"
  using assms
proof (induction rs arbitrary: w root)
  case Nil
  then show ?case by (simp add: histories_of_def)
next
  case (Cons x rs)
  let ?n = "next_ref w"
  obtain it where it: "new_HistoryTreeItem H (as_History x) (Some r) = Inr it"
    using has_label_new_item [OF as_History_has_label] by blast
  let ?root1 = "root\<lparr>children := ?n # children root\<rparr>"
  let ?w1 = "w\<lparr>heap := (heap w)(?n \<mapsto> it, r \<mapsto> ?root1),
             next_ref := Suc ?n, fired := fired w @ [r]\<rparr>"
  have step: "appendHistory H (as_History x) w = (None, ?w1)"
    by (rule appendHistory_eq [OF Cons.prems it])
  have wf1: "wf ?w1"
    using wf_appendHistory [OF Cons.prems(1), of H "as_History x"] step by simp
  have ne: "r \<noteq> ?n" using wf_bound [OF Cons.prems(1,3)] by simp
  have c1: "currentHistoryTree ?w1 = Some r" using Cons.prems(2) by simp
  have h1: "heap ?w1 r = Some ?root1" by simp
  from Cons.IH [OF wf1 c1 h1] obtain w' new root' where
    run: "appendAll H (map as_History rs) ?w1 = (None, w')"
    and wf': "wf w'" and c': "currentHistoryTree w' = Some r" and h': "heap w' r = Some root'"
    and ch: "children root' = new @ children ?root1"
    and hs: "histories_of w' new = map (\<lambda>x. Some (as_History x)) (rev rs)"
    and keep: "\<forall>k. k < next_ref ?w1 \<and> k \<noteq> r \<longrightarrow> heap w' k = heap ?w1 k"
    and nx: "next_ref ?w1 \<le> next_ref w'" and dk: "disk w' = disk ?w1"
    and lg: "fs_log w' = fs_log ?w1"
    by blast
  have hn: "heap w' ?n = Some it" using keep ne by simp
  have "histories_of w' (new @ [?n]) = map (\<lambda>x. Some (as_History x)) (rev (x # rs))"
    using hs hn history_of_as_History [OF it] by (simp add: histories_of_def)
  moreover have "children root' = (new @ [?n]) @ children root" using ch by simp
  moreover have "\<forall>k. k < ?n \<and> k \<noteq> r \<longrightarrow> heap w' k = heap w k" using keep by simp
  moreover have "appendAll H (map as_History (x # rs)) w = (None, w')"
    using step run by (simp add: and_then_def)
  moreover have "?n \<le> next_ref w'" using nx by simp
  moreover have "disk w' = disk w" "fs_log w' = fs_log w" using dk lg by simp_all
  ultimately show ?case using wf' c' h' by blast
qed

subsection \<open>Loading\<close>


lemma new_items_fails:
  assumes "\<not> list_all has_label hs"
  shows "new_items H hs w = Inl TypeError"
  using assms
proof (induction hs arbitrary: w)
  case Nil
  then show ?case by simp
next
  case (Cons h hs)
  show ?case
  proof (cases "has_label h")
    case False
    then show ?thesis by (simp add: new_item_fails)
  next
    case True
    obtain it where it: "new_HistoryTreeItem H h (currentHistoryTree w) = Inr it"
      using has_label_new_item [OF True, of H "currentHistoryTree w"] by blast
    obtain r w1 where al: "alloc it w = (r, w1)" by (cases "alloc it w")
    have "new_items H hs w1 = Inl TypeError" using Cons True by simp
    then show ?thesis using it al by simp
  qed
qed

lemma load_ok:
  assumes "disk w (historyPath H) = Some c" "JSON_parse H c = Some (Arr hs)"
    "new_items H hs (logged (ReadFile (historyPath H)) w) = Inr (rs, w2)"
  shows "load H this w = (None, fire this (set_children this rs w2))"
  using assms by (simp add: load_def readFile_def)

lemma load_syntax_error:
  assumes "disk w (historyPath H) = Some c" "JSON_parse H c = None"
  shows "load H this w = (Some SyntaxError, logged (ReadFile (historyPath H)) w)"
  using assms by (simp add: load_def readFile_def)

lemma load_type_error:
  assumes "disk w (historyPath H) = Some c" "JSON_parse H c = Some v" "\<not> loadable v"
  shows "load H this w = (Some TypeError, logged (ReadFile (historyPath H)) w)"
proof (cases v)
  case (Arr hs)
  then have "new_items H hs (logged (ReadFile (historyPath H)) w) = Inl TypeError"
    using assms(3) by (simp add: loadable_def new_items_fails)
  then show ?thesis using assms(1,2) Arr by (simp add: load_def readFile_def)
qed (use assms in \<open>simp_all add: load_def readFile_def\<close>)



lemma refresh_first:
  assumes "heap w this = Some it" "parent it = None" "children it = []"
  shows "refresh H this w = and_then (initialise H w) (load H this)"
  using assms by (simp add: refresh_def)

lemma refresh_first_present:
  assumes "heap w this = Some it" "parent it = None" "children it = []"
    "disk w (historyPath H) = Some c"
  shows "refresh H this w = load H this (logged (Access (historyPath H)) w)"
  unfolding refresh_first [OF assms(1,2,3)] initialise_present [OF assms(4)]
  by (rule and_then_None)

lemma refresh_loads_empty:
  assumes "heap w this = Some it" "parent it = None" "children it = []"
    "disk w (historyPath H) = Some c" "JSON_parse H c = Some (Arr [])"
  shows "refresh H this w =
    (None, w\<lparr>fs_log := fs_log w @ [Access (historyPath H), ReadFile (historyPath H)],
             fired := fired w @ [this]\<rparr>)"
proof -
  let ?w1 = "logged (Access (historyPath H)) w"
  have d: "disk ?w1 (historyPath H) = Some c" using assms(4) by (simp add: logged_def)
  have n: "new_items H [] (logged (ReadFile (historyPath H)) ?w1)
      = Inr ([], logged (ReadFile (historyPath H)) ?w1)" by simp
  have eq: "it\<lparr>children := []\<rparr> = it" using assms(3) by simp
  have "(heap w)(this \<mapsto> it) = heap w" using assms(1) by (rule map_upd_triv)
  then show ?thesis
    unfolding refresh_first_present [OF assms(1,2,3,4)] load_ok [OF d assms(5) n]
    using assms(1) eq by (simp add: fire_def set_children_def logged_def)
qed


lemma alloc_dirs: "dirs (snd (alloc it w)) = dirs w \<and> refused (snd (alloc it w)) = refused w"
  by (simp add: alloc_def)


lemma set_children_dirs:
  "dirs (set_children r cs w) = dirs w \<and> refused (set_children r cs w) = refused w"
  by (simp add: set_children_def split: option.splits)


lemma refresh_no_fs_dirs:
  assumes "\<And>it. heap w r = Some it \<Longrightarrow> parent it \<noteq> None \<or> children it \<noteq> []"
  shows "dirs (snd (refresh H r w)) = dirs w"
proof (cases "heap w r")
  case None
  then show ?thesis by (simp add: refresh_def)
next
  case (Some it)
  then show ?thesis using assms [OF Some] by (auto simp: refresh_def fire_def)
qed


lemma appendHistory_dirs: "dirs (snd (appendHistory H h w)) = dirs w"
proof (cases "\<exists>r root it. currentHistoryTree w = Some r \<and> heap w r = Some root
          \<and> new_HistoryTreeItem H h (currentHistoryTree w) = Inr it")
  case False
  then have "snd (appendHistory H h w) = w"
    by (auto simp: appendHistory_def split: option.splits sum.splits)
  then show ?thesis by simp
next
  case True
  then obtain r root it where c: "currentHistoryTree w = Some r" and h: "heap w r = Some root"
    and n: "new_HistoryTreeItem H h (currentHistoryTree w) = Inr it" by blast
  obtain k w1 where al: "alloc it w = (k, w1)" by (cases "alloc it w")
  let ?w2 = "set_children r (k # children root) w1"
  have e: "snd (appendHistory H h w) = snd (refresh H r ?w2)"
    using c h n al by (simp add: appendHistory_def)
  have "parent x \<noteq> None \<or> children x \<noteq> []" if "heap ?w2 r = Some x" for x
    using that by (auto simp: set_children_heap)
  from refresh_no_fs_dirs [of ?w2 r H, OF this]
  have "dirs (snd (refresh H r ?w2)) = dirs ?w2" by simp
  then show ?thesis
    unfolding e using set_children_dirs [of r "k # children root" w1] alloc_dirs [of it w] al
    by simp
qed

subsection \<open>The parser of the sample host\<close>

lemma parse_empty: "parse_json ''[]'' = Some (Arr [])"
  by code_simp

lemma parse_not_json: "parse_json ''not json'' = None"
  by code_simp

lemma parse_object: "parse_json ''{}'' = Some (Obj [])"
  by code_simp

lemma parse_sample_unchecked:
  "parse_json sample_unchecked =
     Some (Arr [Obj [(''uniqLabel'', Str ''s''), (''query'', Str ''1''), (''errorMsg'', Str [])]])"
  by code_simp

lemma sample_JSON_parse: "JSON_parse sample_host = parse_json"
  by (simp add: sample_host_def)

subsection \<open>Replacing the comma\<close>

lemma replace_comma:
  "replace '','' ''-'' l =
     takeWhile (\<lambda>c. c \<noteq> CHR '','') l @
     (case dropWhile (\<lambda>c. c \<noteq> CHR '','') l of [] \<Rightarrow> [] | c # rest \<Rightarrow> CHR ''-'' # rest)"
  by (induction l) simp_all

lemma commas_to_dashes_none: "CHR '','' \<notin> set l \<Longrightarrow> commas_to_dashes l = l"
  by (induction l) (auto simp: commas_to_dashes_def)

lemma replace_single_comma:
  "count_list l (CHR '','') \<le> 1 \<Longrightarrow> replace '','' ''-'' l = commas_to_dashes l"
proof (induction l)
  case Nil
  then show ?case by (simp add: commas_to_dashes_def)
next
  case (Cons c cs)
  show ?case
  proof (cases "c = CHR '',''")
    case True
    then have "count_list cs (CHR '','') = 0" using Cons.prems by simp
    then have "CHR '','' \<notin> set cs" by (simp add: count_list_0_iff)
    then have "commas_to_dashes cs = cs" by (rule commas_to_dashes_none)
    then show ?thesis using True by (simp add: commas_to_dashes_def)
  next
    case False
    then have "replace '','' ''-'' cs = commas_to_dashes cs" using Cons by simp
    then show ?thesis using False by (simp add: commas_to_dashes_def)
  qed
qed

lemma new_item_label:
  assumes "get_prop h ''uniqLabel'' = Inr (Str l)"
  shows "\<exists>it. new_HistoryTreeItem H h p = Inr it
     \<and> label it = replace '','' ''-'' l @ '' | '' @ format H (time it) ''HH:mm:ss''
     \<and> hd (tooltip it) = Markdown (''- server: '' @ replace '','' ''-'' l @ newline)
     \<and> uniqLabel it = Str l"
proof -
  obtain t d q e where f: "get_prop h ''time'' = Inr t" "get_prop h ''duration'' = Inr d"
    "get_prop h ''query'' = Inr q" "get_prop h ''errorMsg'' = Inr e"
    using get_prop_total [OF assms] by metis
  show ?thesis using assms f by (simp add: new_HistoryTreeItem_def)
qed

subsection \<open>Creating the history file\<close>



























subsection \<open>The sample states with directories\<close>









lemma refuse_simps: "refuse op e op = Some e" "x \<noteq> op \<Longrightarrow> refuse op e x = None"
  by (simp_all add: refuse_def)


section \<open>Properties of the history tree\<close>

text \<open>
  C10. \<open>refresh\<close> on an item that has a parent does nothing at all: the promise
  resolves and the state is the same, so no file-system call is made, no emitter fires
  and no object changes.
\<close>

theorem C10_refresh_non_root:
  assumes "heap w this = Some it" and "parent it \<noteq> None"
  shows "refresh H this w = (None, w)"
  using assms by (simp add: refresh_def)

theorem C10_refresh_non_root_witness:
  "heap (sample_appended Map.empty) 1 = Some sample_child_item
   \<and> parent sample_child_item \<noteq> None
   \<and> refresh sample_host 1 (sample_appended Map.empty) = (None, sample_appended Map.empty)"
proof -
  have h: "heap (sample_appended Map.empty) 1 = Some sample_child_item"
    by (simp add: sample_appended_eq)
  have p: "parent sample_child_item \<noteq> None"
    by (simp add: sample_child_item_def)
  show ?thesis
    using h p C10_refresh_non_root [OF h p, of sample_host] by simp
qed


text \<open>
  C5. On the tree (no parent) with a non-empty \<open>_children\<close>, \<open>refresh\<close> succeeds,
  leaves the cached sequence as it is and fires the emitter once, without any
  file-system call: whatever another process has made of the disk in between (\<open>d\<close>) is
  not read.
\<close>

theorem C5_refresh_cached:
  assumes "heap w this = Some it" and "parent it = None" and "children it \<noteq> []"
  shows "refresh H this (w\<lparr>disk := d\<rparr>) = (None, w\<lparr>disk := d, fired := fired w @ [this]\<rparr>)
       \<and> fs_log (snd (refresh H this (w\<lparr>disk := d\<rparr>))) = fs_log w
       \<and> fired (snd (refresh H this (w\<lparr>disk := d\<rparr>))) = fired w @ [this]
       \<and> getChildren this NoArg (snd (refresh H this (w\<lparr>disk := d\<rparr>))) = getChildren this NoArg w
       \<and> getChildren this NoArg w = Inr (children it)"
proof -
  have "heap (w\<lparr>disk := d\<rparr>) this = Some it" using assms(1) by simp
  from refresh_cached [OF this assms(2,3)]
  have r: "refresh H this (w\<lparr>disk := d\<rparr>) = (None, w\<lparr>disk := d, fired := fired w @ [this]\<rparr>)"
    by (simp add: fire_def)
  show ?thesis unfolding r using assms(1) by (simp add: children_of_def)
qed

theorem C5_refresh_cached_witness:
  "heap (sample_appended Map.empty) 0 = Some (sample_root_item\<lparr>children := [1]\<rparr>)
   \<and> parent (sample_root_item\<lparr>children := [1]\<rparr>) = None
   \<and> children (sample_root_item\<lparr>children := [1]\<rparr>) \<noteq> []
   \<and> fst (refresh sample_host 0
        ((sample_appended Map.empty)\<lparr>disk := [historyPath sample_host \<mapsto> ''[]'']\<rparr>)) = None
   \<and> fired (snd (refresh sample_host 0
        ((sample_appended Map.empty)\<lparr>disk := [historyPath sample_host \<mapsto> ''[]'']\<rparr>))) = [0, 0]
   \<and> getChildren 0 NoArg (snd (refresh sample_host 0
        ((sample_appended Map.empty)\<lparr>disk := [historyPath sample_host \<mapsto> ''[]'']\<rparr>))) = Inr [1]"
proof -
  have h: "heap (sample_appended Map.empty) 0 = Some (sample_root_item\<lparr>children := [1]\<rparr>)"
    by (simp add: sample_appended_eq)
  have p: "parent (sample_root_item\<lparr>children := [1]\<rparr>) = None"
    and c: "children (sample_root_item\<lparr>children := [1]\<rparr>) \<noteq> []"
    by (simp_all add: sample_root_item_def)
  have f: "fired (sample_appended Map.empty) = [0]"
    by (simp add: sample_appended_eq)
  show ?thesis
    using h p c f
      C5_refresh_cached [OF h p c, of sample_host "[historyPath sample_host \<mapsto> ''[]'']"]
    by (simp add: children_of_def)
qed

text \<open>
  C7. In every reachable state where the tree exists, \<open>getChildren\<close> on the tree
  without argument, and \<open>getChildren\<close> with the tree as argument, return the
  \<open>_children\<close> of the tree (the sequence that \<open>refresh\<close> and \<open>appendHistory\<close>
  maintain); for a \<open>TreeItem\<close> of another class the result is empty; and every item
  other than the tree has a parent and an empty result.
\<close>

theorem C7_getChildren_flat:
  assumes "reachable H w" and "currentHistoryTree w = Some root"
  shows "(\<exists>it. heap w root = Some it
            \<and> getChildren root NoArg w = Inr (children it)
            \<and> getChildren this (HistoryItem root) w = Inr (children it))
       \<and> getChildren this OtherItem w = Inr []
       \<and> (\<forall>e it. heap w e = Some it \<and> e \<noteq> root \<longrightarrow>
             parent it \<noteq> None \<and> getChildren this (HistoryItem e) w = Inr [])"
proof -
  have wf: "wf w" by (rule reachable_wf [OF assms(1)])
  obtain it where it: "heap w root = Some it" using wf_current [OF wf assms(2)] by blast
  have 1: "\<exists>it. heap w root = Some it
            \<and> getChildren root NoArg w = Inr (children it)
            \<and> getChildren this (HistoryItem root) w = Inr (children it)"
    using it by (simp add: children_of_def)
  have 3: "parent x \<noteq> None \<and> getChildren this (HistoryItem e) w = Inr []"
    if "heap w e = Some x" "e \<noteq> root" for e x
    using wf_non_root [OF wf assms(2) that] that(1) by (simp add: children_of_def)
  have 2: "\<forall>e it. heap w e = Some it \<and> e \<noteq> root \<longrightarrow>
             parent it \<noteq> None \<and> getChildren this (HistoryItem e) w = Inr []"
    using 3 by blast
  show ?thesis using 1 2 by simp
qed

theorem C7_getChildren_flat_witness:
  "reachable sample_host (sample_appended Map.empty)
   \<and> currentHistoryTree (sample_appended Map.empty) = Some 0
   \<and> getChildren 0 NoArg (sample_appended Map.empty) = Inr [1]
   \<and> getChildren 0 (HistoryItem 0) (sample_appended Map.empty) = Inr [1]
   \<and> getChildren 0 OtherItem (sample_appended Map.empty) = Inr []
   \<and> heap (sample_appended Map.empty) 1 = Some sample_child_item
   \<and> getChildren 0 (HistoryItem 1) (sample_appended Map.empty) = Inr []"
proof -
  have r: "reachable sample_host (sample_appended Map.empty)"
    by (rule sample_appended_reachable)
  have c: "currentHistoryTree (sample_appended Map.empty) = Some 0"
    by (simp add: sample_appended_eq)
  have h0: "heap (sample_appended Map.empty) 0 = Some (sample_root_item\<lparr>children := [1]\<rparr>)"
    and h1: "heap (sample_appended Map.empty) 1 = Some sample_child_item"
    by (simp_all add: sample_appended_eq)
  show ?thesis
    using r c h0 h1 C7_getChildren_flat [OF r c, of 0] by auto
qed

text \<open>
  C4. \<open>appendHistory\<close> makes no file-system call, so the files (and with them the
  history file) and the directories are what they were, in every state and also when
  the call fails. In a reachable
  state where the tree exists, and for a history whose \<open>uniqLabel\<close> is a string, the
  call succeeds, the new item is put in front of the children of the tree, and the
  emitter of the tree fires once.
\<close>

theorem C4_appendHistory_no_disk_write:
  "disk (snd (appendHistory H h w)) = disk w
   \<and> dirs (snd (appendHistory H h w)) = dirs w
   \<and> fs_log (snd (appendHistory H h w)) = fs_log w
   \<and> (\<forall>r cs. reachable H w \<and> currentHistoryTree w = Some r \<and> has_label h
         \<and> getChildren r NoArg w = Inr cs \<longrightarrow>
         fst (appendHistory H h w) = None
         \<and> getChildren r NoArg (snd (appendHistory H h w)) = Inr (next_ref w # cs)
         \<and> fired (snd (appendHistory H h w)) = fired w @ [r])"
proof -
  have "fst (appendHistory H h w) = None
         \<and> getChildren r NoArg (snd (appendHistory H h w)) = Inr (next_ref w # cs)
         \<and> fired (snd (appendHistory H h w)) = fired w @ [r]"
    if a: "reachable H w" "currentHistoryTree w = Some r" "has_label h"
      "getChildren r NoArg w = Inr cs" for r cs
  proof -
    have wf: "wf w" by (rule reachable_wf [OF a(1)])
    obtain root where root: "heap w r = Some root" using wf_current [OF wf a(2)] by blast
    obtain it where it: "new_HistoryTreeItem H h (Some r) = Inr it"
      using has_label_new_item [OF a(3)] by blast
    have cs: "children root = cs" using a(4) root by (simp add: children_of_def)
    show ?thesis
      unfolding appendHistory_eq [OF wf a(2) root it]
      using cs by (simp add: children_of_def)
  qed
  then show ?thesis using appendHistory_disk [of H h w] appendHistory_dirs [of H h w] by blast
qed

theorem C4_appendHistory_no_disk_write_witness:
  "reachable sample_host (sample_tree [historyPath sample_host \<mapsto> ''[]''])
   \<and> currentHistoryTree (sample_tree [historyPath sample_host \<mapsto> ''[]'']) = Some 0
   \<and> has_label (History ''tag,srv'' 1000 5 ''til 3'' [])
   \<and> getChildren 0 NoArg (sample_tree [historyPath sample_host \<mapsto> ''[]'']) = Inr []
   \<and> disk (sample_appended [historyPath sample_host \<mapsto> ''[]''])
       = [historyPath sample_host \<mapsto> ''[]'']
   \<and> fs_log (sample_appended [historyPath sample_host \<mapsto> ''[]'']) = []
   \<and> getChildren 0 NoArg (sample_appended [historyPath sample_host \<mapsto> ''[]'']) = Inr [1]
   \<and> fired (sample_appended [historyPath sample_host \<mapsto> ''[]'']) = [0]"
proof -
  let ?d = "[historyPath sample_host \<mapsto> ''[]'']"
  have r: "reachable sample_host (sample_tree ?d)" by (rule sample_tree_reachable)
  have c: "currentHistoryTree (sample_tree ?d) = Some 0" by (simp add: sample_tree_eq)
  have l: "has_label (History ''tag,srv'' 1000 5 ''til 3'' [])" by (rule History_has_label)
  have g: "getChildren 0 NoArg (sample_tree ?d) = Inr []"
    by (simp add: sample_tree_eq children_of_def sample_root_item_def)
  have n: "next_ref (sample_tree ?d) = 1" "fired (sample_tree ?d) = []"
    "disk (sample_tree ?d) = ?d" "fs_log (sample_tree ?d) = []"
    by (simp_all add: sample_tree_eq)
  note t = C4_appendHistory_no_disk_write
    [of sample_host "History ''tag,srv'' 1000 5 ''til 3'' []" "sample_tree ?d"]
  from t r c l g have "getChildren 0 NoArg (sample_appended ?d) = Inr [1]
      \<and> fired (sample_appended ?d) = [0]"
    unfolding sample_appended_def n by auto
  moreover from t have "disk (sample_appended ?d) = ?d \<and> fs_log (sample_appended ?d) = []"
    unfolding sample_appended_def n by blast
  ultimately show ?thesis using r c l g by blast
qed

text \<open>
  C3. Start in a reachable state where the tree exists and has no children (and, for
  the case of no call at all, where the history file holds an empty list). After
  \<open>appendHistory\<close> has been called with the records \<open>r1, ..., rN\<close> in this order, the
  children of the tree are items holding \<open>rN, ..., r1\<close>, and a following \<open>refresh\<close>
  succeeds and leaves this sequence as it is.
\<close>

theorem C3_append_order:
  assumes "reachable H w" and "currentHistoryTree w = Some root"
    and "getChildren root NoArg w = Inr []"
    and "rs = [] \<longrightarrow> (\<exists>c. disk w (historyPath H) = Some c \<and> JSON_parse H c = Some (Arr []))"
  shows "\<exists>w' w'' cs.
      appendAll H (map as_History rs) w = (None, w')
    \<and> getChildren root NoArg w' = Inr cs
    \<and> histories_of w' cs = map (\<lambda>r. Some (as_History r)) (rev rs)
    \<and> refresh H root w' = (None, w'')
    \<and> getChildren root NoArg w'' = Inr cs
    \<and> histories_of w'' cs = map (\<lambda>r. Some (as_History r)) (rev rs)"
proof -
  have wf: "wf w" by (rule reachable_wf [OF assms(1)])
  obtain it where it: "heap w root = Some it" "parent it = None"
    using wf_current [OF wf assms(2)] by blast
  have em: "children it = []" using assms(3) it(1) by (simp add: children_of_def)
  show ?thesis
  proof (cases "rs = []")
    case True
    then obtain c where c: "disk w (historyPath H) = Some c" "JSON_parse H c = Some (Arr [])"
      using assms(4) by blast
    let ?w2 = "w\<lparr>fs_log := fs_log w @ [Access (historyPath H), ReadFile (historyPath H)],
             fired := fired w @ [root]\<rparr>"
    have r: "refresh H root w = (None, ?w2)"
      by (rule refresh_loads_empty [OF it em c])
    have "appendAll H (map as_History rs) w = (None, w)" using True by simp
    moreover have "getChildren root NoArg w = Inr []" by (rule assms(3))
    moreover have "getChildren root NoArg ?w2 = Inr []"
      using it(1) em by (simp add: children_of_def)
    moreover have "histories_of w [] = map (\<lambda>r. Some (as_History r)) (rev rs)"
      "histories_of ?w2 [] = map (\<lambda>r. Some (as_History r)) (rev rs)"
      using True by (simp_all add: histories_of_def)
    ultimately show ?thesis using r by blast
  next
    case False
    from appendAll_order [OF wf assms(2) it(1), of H rs] obtain w' new root' where
      run: "appendAll H (map as_History rs) w = (None, w')"
      and wf': "wf w'" and c': "currentHistoryTree w' = Some root"
      and h': "heap w' root = Some root'"
      and ch: "children root' = new @ children it"
      and hs: "histories_of w' new = map (\<lambda>x. Some (as_History x)) (rev rs)"
      by blast
    have ch': "children root' = new" using ch em by simp
    have "length new = length rs" using arg_cong [OF hs, of length] by (simp add: histories_of_def)
    then have ne: "children root' \<noteq> []" using False ch' by auto
    have pr: "parent root' = None" using wf_current [OF wf' c'] h' by auto
    have r: "refresh H root w' = (None, fire root w')"
      by (rule refresh_cached [OF h' pr ne])
    have g1: "getChildren root NoArg w' = Inr new" using h' ch' by (simp add: children_of_def)
    have g2: "getChildren root NoArg (fire root w') = Inr new"
      using h' ch' by (simp add: children_of_def fire_def)
    have hs2: "histories_of (fire root w') new = map (\<lambda>x. Some (as_History x)) (rev rs)"
      using hs by (simp add: histories_of_def fire_def)
    show ?thesis using run g1 hs r g2 hs2 by blast
  qed
qed

theorem C3_append_order_witness:
  "reachable sample_host (sample_tree [historyPath sample_host \<mapsto> ''[]''])
   \<and> currentHistoryTree (sample_tree [historyPath sample_host \<mapsto> ''[]'']) = Some 0
   \<and> getChildren 0 NoArg (sample_tree [historyPath sample_host \<mapsto> ''[]'']) = Inr []
   \<and> (\<exists>w' w'' cs.
        appendAll sample_host
          (map as_History [(''tag,srv'', 1000, 5, ''til 3'', []), (''b'', 2000, 7, ''1+'', ''parse'')])
          (sample_tree [historyPath sample_host \<mapsto> ''[]'']) = (None, w')
      \<and> getChildren 0 NoArg w' = Inr cs
      \<and> histories_of w' cs =
          [Some (as_History (''b'', 2000, 7, ''1+'', ''parse'')),
           Some (as_History (''tag,srv'', 1000, 5, ''til 3'', []))]
      \<and> refresh sample_host 0 w' = (None, w'')
      \<and> getChildren 0 NoArg w'' = Inr cs
      \<and> histories_of w'' cs =
          [Some (as_History (''b'', 2000, 7, ''1+'', ''parse'')),
           Some (as_History (''tag,srv'', 1000, 5, ''til 3'', []))])
   \<and> disk (sample_tree [historyPath sample_host \<mapsto> ''[]'']) (historyPath sample_host)
       = Some ''[]''
   \<and> JSON_parse sample_host ''[]'' = Some (Arr [])
   \<and> (\<exists>w' w''.
        appendAll sample_host (map as_History [])
          (sample_tree [historyPath sample_host \<mapsto> ''[]'']) = (None, w')
      \<and> getChildren 0 NoArg w' = Inr []
      \<and> refresh sample_host 0 w' = (None, w'')
      \<and> getChildren 0 NoArg w'' = Inr [])"
proof -
  let ?d = "[historyPath sample_host \<mapsto> ''[]'']"
  have r: "reachable sample_host (sample_tree ?d)" by (rule sample_tree_reachable)
  have c: "currentHistoryTree (sample_tree ?d) = Some 0" by (simp add: sample_tree_eq)
  have g: "getChildren 0 NoArg (sample_tree ?d) = Inr []"
    by (simp add: sample_tree_eq children_of_def sample_root_item_def)
  have e: "[(''tag,srv'', 1000::int, 5::int, ''til 3'', []), (''b'', 2000, 7, ''1+'', ''parse'')] = []
     \<longrightarrow> (\<exists>c. disk (sample_tree ?d) (historyPath sample_host) = Some c
            \<and> JSON_parse sample_host c = Some (Arr []))"
    by simp
  have d: "disk (sample_tree ?d) (historyPath sample_host) = Some ''[]''"
    by (simp add: sample_tree_eq)
  have p: "JSON_parse sample_host ''[]'' = Some (Arr [])"
    by (simp add: sample_JSON_parse parse_empty)
  have e0: "([] :: (string \<times> int \<times> int \<times> string \<times> string) list) = []
     \<longrightarrow> (\<exists>c. disk (sample_tree ?d) (historyPath sample_host) = Some c
            \<and> JSON_parse sample_host c = Some (Arr []))"
    using d p by blast
  have 1: "\<exists>w' w'' cs.
        appendAll sample_host
          (map as_History [(''tag,srv'', 1000, 5, ''til 3'', []), (''b'', 2000, 7, ''1+'', ''parse'')])
          (sample_tree ?d) = (None, w')
      \<and> getChildren 0 NoArg w' = Inr cs
      \<and> histories_of w' cs =
          [Some (as_History (''b'', 2000, 7, ''1+'', ''parse'')),
           Some (as_History (''tag,srv'', 1000, 5, ''til 3'', []))]
      \<and> refresh sample_host 0 w' = (None, w'')
      \<and> getChildren 0 NoArg w'' = Inr cs
      \<and> histories_of w'' cs =
          [Some (as_History (''b'', 2000, 7, ''1+'', ''parse'')),
           Some (as_History (''tag,srv'', 1000, 5, ''til 3'', []))]"
    using C3_append_order [OF r c g e] by simp
  have 2: "\<exists>w' w''.
        appendAll sample_host (map as_History []) (sample_tree ?d) = (None, w')
      \<and> getChildren 0 NoArg w' = Inr []
      \<and> refresh sample_host 0 w' = (None, w'')
      \<and> getChildren 0 NoArg w'' = Inr []"
    using C3_append_order [OF r c g e0] by (auto simp: histories_of_def)
  show ?thesis
    using r c g d p 1 2 by blast
qed







text \<open>
  C8, as claimed, asks for a parse error whenever the history file is not a valid list
  of records. The code has no such check: the sample file, whose element lacks two
  fields, is loaded without error into an item whose \<open>time\<close> and \<open>duration\<close> are
  \<open>undefined\<close>, and the children of the tree change.
\<close>

theorem C8_unchecked_counterexample:
  "disk (sample_tree [historyPath sample_host \<mapsto> sample_unchecked]) (historyPath sample_host)
     = Some sample_unchecked
   \<and> \<not> valid_history_text sample_host sample_unchecked
   \<and> getChildren 0 NoArg (sample_tree [historyPath sample_host \<mapsto> sample_unchecked]) = Inr []
   \<and> fst (refresh sample_host 0 (sample_tree [historyPath sample_host \<mapsto> sample_unchecked]))
       = None
   \<and> getChildren 0 NoArg
       (snd (refresh sample_host 0 (sample_tree [historyPath sample_host \<mapsto> sample_unchecked])))
       = Inr [1]
   \<and> map_option time
       (heap (snd (refresh sample_host 0
          (sample_tree [historyPath sample_host \<mapsto> sample_unchecked]))) 1) = Some Undefined
   \<and> map_option duration
       (heap (snd (refresh sample_host 0
          (sample_tree [historyPath sample_host \<mapsto> sample_unchecked]))) 1) = Some Undefined"
proof -
  let ?w = "sample_tree [historyPath sample_host \<mapsto> sample_unchecked]"
  let ?hp = "historyPath sample_host"
  have h: "heap ?w 0 = Some sample_root_item" by (simp add: sample_tree_eq)
  have p: "parent sample_root_item = None" and c: "children sample_root_item = []"
    by (simp_all add: sample_root_item_def)
  have d: "disk ?w ?hp = Some sample_unchecked" by (simp add: sample_tree_eq)
  have v: "\<not> valid_history_text sample_host sample_unchecked"
    by (simp add: valid_history_text_def sample_JSON_parse parse_sample_unchecked
        is_history_record_def)
  have g: "getChildren 0 NoArg ?w = Inr []" using h c by (simp add: children_of_def)
  have r: "refresh sample_host 0 ?w = load sample_host 0 (logged (Access ?hp) ?w)"
    by (rule refresh_first_present [OF h p c d])
  have s: "fst (load sample_host 0 (logged (Access ?hp) ?w)) = None"
    and k: "getChildren 0 NoArg (snd (load sample_host 0 (logged (Access ?hp) ?w))) = Inr [1]"
    and t: "map_option time (heap (snd (load sample_host 0 (logged (Access ?hp) ?w))) 1)
        = Some Undefined"
    and u: "map_option duration (heap (snd (load sample_host 0 (logged (Access ?hp) ?w))) 1)
        = Some Undefined"
    by (simp_all add: load_def readFile_def logged_def sample_tree_eq sample_JSON_parse
        parse_sample_unchecked new_HistoryTreeItem_def alloc_def fire_def set_children_def
        children_of_def)
  show ?thesis
    unfolding r using d v g s k t u by simp
qed

text \<open>
  C8, amended. For \<open>refresh\<close> on the tree with no children yet and an existing
  history file: when the text is not JSON the call fails with the \<open>SyntaxError\<close> of
  \<open>JSON.parse\<close>; when it is JSON but not an array whose elements all have a string as
  \<open>uniqLabel\<close>, the call fails with a \<open>TypeError\<close>. In both cases the state differs
  from the one before only by the two file-system calls logged (the existence check and
  the read): the children are unchanged and no emitter fires.
\<close>

theorem C8_parse_failure:
  assumes "heap w this = Some it" and "parent it = None" and "children it = []"
    and "disk w (historyPath H) = Some c"
  shows "(JSON_parse H c = None \<longrightarrow>
            refresh H this w =
              (Some SyntaxError,
               w\<lparr>fs_log := fs_log w @ [Access (historyPath H), ReadFile (historyPath H)]\<rparr>))
       \<and> (\<forall>v. JSON_parse H c = Some v \<and> \<not> loadable v \<longrightarrow>
            refresh H this w =
              (Some TypeError,
               w\<lparr>fs_log := fs_log w @ [Access (historyPath H), ReadFile (historyPath H)]\<rparr>))"
proof -
  let ?w1 = "logged (Access (historyPath H)) w"
  have r: "refresh H this w = load H this ?w1"
    by (rule refresh_first_present [OF assms])
  have d: "disk ?w1 (historyPath H) = Some c" using assms(4) by (simp add: logged_def)
  have l: "logged (ReadFile (historyPath H)) ?w1
      = w\<lparr>fs_log := fs_log w @ [Access (historyPath H), ReadFile (historyPath H)]\<rparr>"
    by (simp add: logged_def)
  show ?thesis
    unfolding r using load_syntax_error [OF d, of this] load_type_error [OF d, of _ this]
    by (simp add: l)
qed

theorem C8_parse_failure_witness:
  "heap (sample_tree [historyPath sample_host \<mapsto> ''not json'']) 0 = Some sample_root_item
   \<and> parent sample_root_item = None \<and> children sample_root_item = []
   \<and> disk (sample_tree [historyPath sample_host \<mapsto> ''not json'']) (historyPath sample_host)
       = Some ''not json''
   \<and> JSON_parse sample_host ''not json'' = None
   \<and> fst (refresh sample_host 0 (sample_tree [historyPath sample_host \<mapsto> ''not json'']))
       = Some SyntaxError
   \<and> heap (snd (refresh sample_host 0 (sample_tree [historyPath sample_host \<mapsto> ''not json''])))
       = heap (sample_tree [historyPath sample_host \<mapsto> ''not json''])
   \<and> fired (snd (refresh sample_host 0 (sample_tree [historyPath sample_host \<mapsto> ''not json''])))
       = []
   \<and> heap (sample_tree [historyPath sample_host \<mapsto> ''{}'']) 0 = Some sample_root_item
   \<and> disk (sample_tree [historyPath sample_host \<mapsto> ''{}'']) (historyPath sample_host)
       = Some ''{}''
   \<and> JSON_parse sample_host ''{}'' = Some (Obj []) \<and> \<not> loadable (Obj [])
   \<and> fst (refresh sample_host 0 (sample_tree [historyPath sample_host \<mapsto> ''{}'']))
       = Some TypeError
   \<and> heap (snd (refresh sample_host 0 (sample_tree [historyPath sample_host \<mapsto> ''{}''])))
       = heap (sample_tree [historyPath sample_host \<mapsto> ''{}''])"
proof -
  let ?w = "sample_tree [historyPath sample_host \<mapsto> ''not json'']"
  let ?u = "sample_tree [historyPath sample_host \<mapsto> ''{}'']"
  have h: "heap ?w 0 = Some sample_root_item" and h': "heap ?u 0 = Some sample_root_item"
    by (simp_all add: sample_tree_eq)
  have p: "parent sample_root_item = None" and c: "children sample_root_item = []"
    by (simp_all add: sample_root_item_def)
  have d: "disk ?w (historyPath sample_host) = Some ''not json''"
    and d': "disk ?u (historyPath sample_host) = Some ''{}''"
    by (simp_all add: sample_tree_eq)
  have j: "JSON_parse sample_host ''not json'' = None"
    by (simp add: sample_JSON_parse parse_not_json)
  have j': "JSON_parse sample_host ''{}'' = Some (Obj [])"
    by (simp add: sample_JSON_parse parse_object)
  have n: "\<not> loadable (Obj [])" by (simp add: loadable_def)
  have f: "fired ?w = []" by (simp add: sample_tree_eq)
  have 1: "refresh sample_host 0 ?w =
      (Some SyntaxError, ?w\<lparr>fs_log := fs_log ?w @
         [Access (historyPath sample_host), ReadFile (historyPath sample_host)]\<rparr>)"
    using C8_parse_failure [OF h p c d] j by blast
  have 2: "refresh sample_host 0 ?u =
      (Some TypeError, ?u\<lparr>fs_log := fs_log ?u @
         [Access (historyPath sample_host), ReadFile (historyPath sample_host)]\<rparr>)"
    using C8_parse_failure [OF h' p c d'] j' n by blast
  show ?thesis
    unfolding 1 2 using h p c d j h' d' j' n f by simp
qed

text \<open>
  C2, as claimed, has every comma of the label replaced by a dash in the tree label,
  in the tooltip and in the connection status. \<open>replace\<close> with a string pattern
  replaces one occurrence: for the label \<open>a,b,c\<close> the three texts show \<open>a-b,c\<close>, not
  \<open>a-b-c\<close>.
\<close>

theorem C2_every_comma_counterexample:
  "map_sum id label (new_HistoryTreeItem sample_host (History ''a,b,c'' 1000 5 ''til 3'' []) (Some 0))
     = Inr ''a-b,c | HH:mm:ss''
   \<and> map_sum id (hd \<circ> tooltip)
       (new_HistoryTreeItem sample_host (History ''a,b,c'' 1000 5 ''til 3'' []) (Some 0))
     = Inr (Markdown (''- server: a-b,c'' @ newline))
   \<and> map_sum id (text_value \<circ> connStatusBar)
       (updateConnStatus \<lparr>queryMode = ''Console'', consoleMode = True\<rparr> (Some ''a,b,c'')
          (create None))
     = Inr ''C:a-b,c''
   \<and> commas_to_dashes ''a,b,c'' = ''a-b-c''"
  by (simp add: new_item_History sample_host_def updateConnStatus_def conn_text_def create_def
      first_char_def commas_to_dashes_def)

text \<open>
  C2, amended. For a history whose \<open>uniqLabel\<close> is the string \<open>l\<close>, the tree label
  and the first line of the tooltip show \<open>l\<close> with its first comma replaced by a dash,
  and so does the text of the connection status (once the manager exists); the
  \<open>uniqLabel\<close> field of the item keeps \<open>l\<close> itself. The replaced text is \<open>l\<close> up to
  its first comma, a dash, and the rest of \<open>l\<close> unchanged; when \<open>l\<close> has at most one
  comma, that is \<open>l\<close> with every comma replaced.
\<close>

theorem C2_first_comma:
  assumes "get_prop h ''uniqLabel'' = Inr (Str l)" and "current = Some m"
  shows "(\<exists>it. new_HistoryTreeItem H h p = Inr it
            \<and> label it = replace '','' ''-'' l @ '' | '' @ format H (time it) ''HH:mm:ss''
            \<and> hd (tooltip it) = Markdown (''- server: '' @ replace '','' ''-'' l @ newline)
            \<and> uniqLabel it = Str l)
       \<and> (\<exists>m'. updateConnStatus Q (Some l) current = Inr m'
            \<and> text_value (connStatusBar m')
                = first_char (queryMode Q) @ '':'' @ replace '','' ''-'' l)
       \<and> replace '','' ''-'' l =
            takeWhile (\<lambda>c. c \<noteq> CHR '','') l @
            (case dropWhile (\<lambda>c. c \<noteq> CHR '','') l of
               [] \<Rightarrow> [] | c # rest \<Rightarrow> CHR ''-'' # rest)
       \<and> (count_list l (CHR '','') \<le> 1 \<longrightarrow> replace '','' ''-'' l = commas_to_dashes l)"
proof -
  have "\<exists>m'. updateConnStatus Q (Some l) current = Inr m'
            \<and> text_value (connStatusBar m')
                = first_char (queryMode Q) @ '':'' @ replace '','' ''-'' l"
    using assms(2)
    by (cases "consoleMode Q") (simp_all add: updateConnStatus_def conn_text_def Let_def)
  then show ?thesis
    using new_item_label [OF assms(1), of H p] replace_comma [of l] replace_single_comma [of l]
    by blast
qed

theorem C2_first_comma_witness:
  "get_prop (History ''tag,srv'' 1000 5 ''til 3'' []) ''uniqLabel'' = Inr (Str ''tag,srv'')
   \<and> create None = Some new_QStatusBarManager
   \<and> count_list ''tag,srv'' (CHR '','') \<le> 1
   \<and> (\<exists>it. new_HistoryTreeItem sample_host (History ''tag,srv'' 1000 5 ''til 3'' []) (Some 0)
              = Inr it
         \<and> label it = ''tag-srv | HH:mm:ss''
         \<and> hd (tooltip it) = Markdown (''- server: tag-srv'' @ newline)
         \<and> uniqLabel it = Str ''tag,srv'')
   \<and> (\<exists>m'. updateConnStatus \<lparr>queryMode = ''Console'', consoleMode = True\<rparr>
               (Some ''tag,srv'') (create None) = Inr m'
         \<and> text_value (connStatusBar m') = ''C:tag-srv'')
   \<and> replace '','' ''-'' ''tag,srv'' = commas_to_dashes ''tag,srv''"
proof -
  have g: "get_prop (History ''tag,srv'' 1000 5 ''til 3'' []) ''uniqLabel'' = Inr (Str ''tag,srv'')"
    by (simp add: History_def)
  have c: "create None = Some new_QStatusBarManager" by (simp add: create_def)
  have n: "count_list ''tag,srv'' (CHR '','') \<le> 1" by simp
  have r: "replace '','' ''-'' ''tag,srv'' = ''tag-srv''" by simp
  have f: "format sample_host = (\<lambda>v pat. pat)" by (simp add: sample_host_def)
  note t = C2_first_comma [OF g c, of sample_host "Some 0"
      "\<lparr>queryMode = ''Console'', consoleMode = True\<rparr>"]
  have 1: "\<exists>it. new_HistoryTreeItem sample_host (History ''tag,srv'' 1000 5 ''til 3'' []) (Some 0)
              = Inr it
         \<and> label it = ''tag-srv | HH:mm:ss''
         \<and> hd (tooltip it) = Markdown (''- server: tag-srv'' @ newline)
         \<and> uniqLabel it = Str ''tag,srv''"
    using t unfolding r f by auto
  have 2: "\<exists>m'. updateConnStatus \<lparr>queryMode = ''Console'', consoleMode = True\<rparr>
               (Some ''tag,srv'') (create None) = Inr m'
         \<and> text_value (connStatusBar m') = ''C:tag-srv''"
    using t unfolding r by (auto simp: first_char_def)
  have 3: "replace '','' ''-'' ''tag,srv'' = commas_to_dashes ''tag,srv''"
    using t n by blast
  show ?thesis using g c n 1 2 3 by blast
qed
section \<open>Properties of the status bar manager\<close>

text \<open>
  C9. Once the manager exists, \<open>updateUnlimitedQueryStatus\<close> has inverted sense: the
  unlimited-query item is hidden when \<open>isLimited\<close> is true and shown when it is false,
  whatever its visibility was before; \<open>updateQueryStatus\<close> shows the querying item
  exactly when its argument is true. Each call succeeds and leaves the other two items
  as they were.
\<close>

theorem C9_status_visibility:
  assumes "current = Some m"
  shows "(\<exists>m'. updateUnlimitedQueryStatus isLimited current = Inr m'
            \<and> visible (unlimitedQueryStatusBar m') = (\<not> isLimited)
            \<and> connStatusBar m' = connStatusBar m \<and> queryStatusBar m' = queryStatusBar m)
       \<and> (\<exists>m'. updateQueryStatus shw current = Inr m'
            \<and> visible (queryStatusBar m') = shw
            \<and> connStatusBar m' = connStatusBar m
            \<and> unlimitedQueryStatusBar m' = unlimitedQueryStatusBar m)"
  using assms
  by (simp add: updateUnlimitedQueryStatus_def updateQueryStatus_def show_item_def hide_item_def)

theorem C9_status_visibility_witness:
  "create None = Some new_QStatusBarManager
   \<and> (\<exists>m'. updateUnlimitedQueryStatus True (create None) = Inr m'
         \<and> visible (unlimitedQueryStatusBar m') = (\<not> True)
         \<and> connStatusBar m' = connStatusBar new_QStatusBarManager
         \<and> queryStatusBar m' = queryStatusBar new_QStatusBarManager)
   \<and> (\<exists>m'. updateQueryStatus True (create None) = Inr m'
         \<and> visible (queryStatusBar m') = True
         \<and> connStatusBar m' = connStatusBar new_QStatusBarManager
         \<and> unlimitedQueryStatusBar m' = unlimitedQueryStatusBar new_QStatusBarManager)"
proof -
  have c: "create None = Some new_QStatusBarManager"
    by (simp add: create_def)
  show ?thesis
    using c C9_status_visibility [OF c, of True True] by simp
qed

end
